theory Spec2Isabelle
  imports Complex_Main "HOL-Library.AList" "HOL-Library.Multiset"
begin

section \<open>Python values used by the retrieval pipeline\<close>

text \<open>
  A Python \<open>str\<close> is a sequence of Unicode code points, and \<open>len\<close> counts code points.
  The corpus and most literals of the program are Ukrainian, so a string is modelled as
  the list of its code points. ASCII literals are written through \<open>u\<close>; Cyrillic
  literals are given by their code points, with a transliteration beside them.
  A Python \<open>float\<close> is modelled as a real number (no rounding, no NaN, no infinity).
\<close>

type_synonym ustr = "nat list"

definition u :: "string \<Rightarrow> ustr" where
  "u s = map of_char s"

datatype py_error = IndexError | TypeError | ServiceError

text \<open>\<open>xs[i]\<close> for an index produced by \<open>range\<close>: IndexError when out of range.\<close>

definition py_index :: "'a list \<Rightarrow> nat \<Rightarrow> py_error + 'a" where
  "py_index xs i = (if i < length xs then Inr (xs ! i) else Inl IndexError)"

text \<open>\<open>xs[:k]\<close>; a negative \<open>k\<close> drops the last \<open>-k\<close> elements.\<close>

definition py_take :: "int \<Rightarrow> 'a list \<Rightarrow> 'a list" where
  "py_take k xs = (if 0 \<le> k then take (nat k) xs else take (length xs - nat (- k)) xs)"

text \<open>The code points for which \<open>str.isspace\<close> holds; \<open>str.split()\<close> splits on runs of them.\<close>

definition is_space :: "nat \<Rightarrow> bool" where
  "is_space c \<longleftrightarrow> c \<in> set [9, 10, 11, 12, 13, 28, 29, 30, 31, 32, 133, 160, 5760,
     8192, 8193, 8194, 8195, 8196, 8197, 8198, 8199, 8200, 8201, 8202,
     8232, 8233, 8239, 8287, 12288]"

fun py_split_from :: "ustr \<Rightarrow> ustr \<Rightarrow> ustr list" where
  "py_split_from w [] = (if w = [] then [] else [w])"
| "py_split_from w (c # cs) =
     (if is_space c then (if w = [] then py_split_from [] cs else w # py_split_from [] cs)
      else py_split_from (w @ [c]) cs)"

definition py_split :: "ustr \<Rightarrow> ustr list" where
  "py_split s = py_split_from [] s"

fun py_join :: "ustr \<Rightarrow> ustr list \<Rightarrow> ustr" where
  "py_join sep [] = []"
| "py_join sep [x] = x"
| "py_join sep (x # y # ys) = x @ sep @ py_join sep (y # ys)"

text \<open>Truthiness of an optional string: \<open>None\<close> and \<open>""\<close> are false.\<close>

definition truthy_str :: "ustr option \<Rightarrow> bool" where
  "truthy_str s = (case s of None \<Rightarrow> False | Some t \<Rightarrow> t \<noteq> [])"

text \<open>Truthiness of an optional list: \<open>None\<close> and \<open>[]\<close> are false.\<close>

definition truthy_list :: "'a list option \<Rightarrow> bool" where
  "truthy_list l = (case l of None \<Rightarrow> False | Some xs \<Rightarrow> xs \<noteq> [])"

section \<open>Data model\<close>

text \<open>The metadata keys the pipeline reads; \<open>None\<close> is an absent key (\<open>dict.get\<close>).\<close>

record metadata =
  title :: "ustr option"
  faculty :: "ustr option"
  department :: "ustr option"
  category :: "ustr option"
  news_type :: "ustr option"

definition empty_metadata :: metadata where
  "empty_metadata = \<lparr>title = None, faculty = None, department = None, category = None,
     news_type = None\<rparr>"

datatype search_type = Routed | Embedding | Keyword | Hybrid

text \<open>
  A search result is a Python dict. The keys \<open>embedding_rank\<close>, \<open>keyword_rank\<close> and
  \<open>route_bonus\<close> are added by later stages; \<open>None\<close> stands for an absent key as well as
  for the value \<open>None\<close>.
\<close>

record hit =
  content :: ustr
  meta :: metadata
  distance :: real
  relevance_score :: real
  doc_id :: "ustr option"
  stype :: search_type
  embedding_rank :: "nat option"
  keyword_rank :: "nat option"
  route_bonus :: "real option"

record route_decision =
  search_scope :: ustr
  search_level :: ustr
  target_entity :: "ustr option"
  search_intent :: ustr
  enhancement_keywords :: "ustr list"
  confidence :: real
  reasoning :: ustr
  needs_database_search :: bool

section \<open>The vector store and the encoder (database.py)\<close>

datatype filter_field = SourceF | FacultyF | DepartmentF | CategoryF

datatype condition = Eq filter_field ustr

datatype where_filter = Single condition | Conj "condition list"

text \<open>What \<open>collection.query\<close> returns: each key holds one inner list per query vector.\<close>

record query_result =
  documents :: "ustr list list option"
  metadatas :: "metadata list list option"
  distances :: "real list list option"
  ids :: "ustr list list option"

text \<open>
  The two external services behind \<open>_route_aware_search\<close>: the encoder, called on the
  prefixed query, and the store, called with the vector, \<open>n_results\<close> and the filter.
  Either may raise.
\<close>

record backend =
  encode :: "ustr \<Rightarrow> py_error + real list"
  store_query :: "real list \<Rightarrow> int \<Rightarrow> where_filter \<Rightarrow> py_error + query_result"

definition intent_to_category :: "ustr \<Rightarrow> ustr option" where
  "intent_to_category i =
     (if i = u ''schedule'' then Some (u ''schedule'')
      else if i = u ''news'' then None
      else if i = u ''events'' then Some (u ''conferences'')
      else if i = u ''contacts'' then Some (u ''contacts'')
      else if i = u ''info'' then None
      else None)"

definition build_route_filters :: "route_decision \<Rightarrow> where_filter" where
  "build_route_filters rd =
     (let conditions = [Eq SourceF (u ''news'')];
          conditions = (if search_scope rd \<noteq> u ''global''
                        then conditions @ [Eq FacultyF (search_scope rd)] else conditions);
          conditions = (if truthy_str (target_entity rd)
                        then conditions @ [Eq DepartmentF (the (target_entity rd))]
                        else conditions);
          cat = intent_to_category (search_intent rd);
          conditions = (if truthy_str cat then conditions @ [Eq CategoryF (the cat)]
                        else conditions)
      in if length conditions > 1 then Conj conditions else Single (hd conditions))"

text \<open>\<open>results[key][0][i]\<close>: TypeError on \<open>None\<close>, IndexError on a missing position.\<close>

definition sub00 :: "'a list list option \<Rightarrow> nat \<Rightarrow> py_error + 'a" where
  "sub00 field i =
     (case field of
        None \<Rightarrow> Inl TypeError
      | Some [] \<Rightarrow> Inl IndexError
      | Some (row # _) \<Rightarrow> py_index row i)"

text \<open>One iteration of the formatting loop; the dict literal is evaluated key by key.\<close>

definition format_hit :: "query_result \<Rightarrow> nat \<Rightarrow> py_error + hit" where
  "format_hit results i =
     (case sub00 (documents results) i of Inl e \<Rightarrow> Inl e | Inr c \<Rightarrow>
      case (if truthy_list (metadatas results) then sub00 (metadatas results) i
            else Inr empty_metadata) of Inl e \<Rightarrow> Inl e | Inr m \<Rightarrow>
      case (if truthy_list (distances results) then sub00 (distances results) i
            else Inr 1) of Inl e \<Rightarrow> Inl e | Inr d \<Rightarrow>
      case sub00 (distances results) i of Inl e \<Rightarrow> Inl e | Inr d' \<Rightarrow>
      case (if truthy_list (ids results) then map_sum id Some (sub00 (ids results) i)
            else Inr None) of Inl e \<Rightarrow> Inl e | Inr k \<Rightarrow>
      Inr \<lparr>content = c, meta = m, distance = d,
           relevance_score = max 0 (1 - d' / 4), doc_id = k, stype = Routed,
           embedding_rank = None, keyword_rank = None, route_bonus = None\<rparr>)"

fun format_loop :: "query_result \<Rightarrow> nat list \<Rightarrow> py_error + hit list" where
  "format_loop results [] = Inr []"
| "format_loop results (i # rest) =
     (case format_hit results i of Inl e \<Rightarrow> Inl e | Inr h \<Rightarrow>
      case format_loop results rest of Inl e \<Rightarrow> Inl e | Inr hs \<Rightarrow> Inr (h # hs))"

text \<open>The body of the \<open>try\<close> block of \<open>_route_aware_search\<close>.\<close>

definition route_aware_search_body ::
  "backend \<Rightarrow> ustr \<Rightarrow> where_filter \<Rightarrow> int \<Rightarrow> py_error + hit list" where
  "route_aware_search_body b query where_f max_results =
     (case encode b (u ''query: '' @ query) of Inl e \<Rightarrow> Inl e | Inr query_embedding \<Rightarrow>
      case store_query b query_embedding max_results where_f of Inl e \<Rightarrow> Inl e
      | Inr results \<Rightarrow>
        (case documents results of
           Some (row # _) \<Rightarrow>
             (if row \<noteq> [] then format_loop results [0..<length row] else Inr [])
         | _ \<Rightarrow> Inr []))"

text \<open>\<open>except Exception\<close>: every error is logged and turned into the empty list.\<close>

definition route_aware_search ::
  "backend \<Rightarrow> ustr \<Rightarrow> where_filter \<Rightarrow> int \<Rightarrow> hit list" where
  "route_aware_search b query where_f max_results =
     (case route_aware_search_body b query where_f max_results of
        Inl e \<Rightarrow> [] | Inr formatted \<Rightarrow> formatted)"

definition route_bonus_of :: "route_decision \<Rightarrow> hit \<Rightarrow> real" where
  "route_bonus_of rd result =
     (if search_scope rd \<noteq> u ''global''
      then (if faculty (meta result) = Some (search_scope rd) then 1 / 10 else 0)
         + (if department (meta result) = target_entity rd then 1 / 10 else 0)
      else 0)"

definition add_route_bonus :: "route_decision \<Rightarrow> hit \<Rightarrow> hit" where
  "add_route_bonus rd result =
     result\<lparr>relevance_score := relevance_score result + route_bonus_of rd result,
            route_bonus := Some (route_bonus_of rd result)\<rparr>"

text \<open>
  \<open>list.sort(key, reverse=True)\<close> is stable: hits with equal scores keep their order.
  \<open>sort_key\<close> is a stable insertion sort, here on the negated score.
\<close>

definition sort_by_score_desc :: "hit list \<Rightarrow> hit list" where
  "sort_by_score_desc hs = sort_key (\<lambda>h. - relevance_score h) hs"

definition rerank_with_route_bonuses :: "hit list \<Rightarrow> route_decision \<Rightarrow> hit list" where
  "rerank_with_route_bonuses results rd = sort_by_score_desc (map (add_route_bonus rd) results)"

text \<open>
  \<open>search_with_route\<close>; \<open>lower\<close> is Python's \<open>str.lower\<close>, taken as a parameter since
  its Unicode tables are not part of the program.
\<close>

definition enhance_query :: "(ustr \<Rightarrow> ustr) \<Rightarrow> ustr \<Rightarrow> route_decision \<Rightarrow> ustr" where
  "enhance_query lower query rd =
     (if enhancement_keywords rd \<noteq> [] then
        (let query_words_lower = set (py_split (lower query));
             new_keywords = filter (\<lambda>kw. lower kw \<notin> query_words_lower)
                              (enhancement_keywords rd)
         in if new_keywords \<noteq> [] then query @ u '' '' @ py_join (u '' '') new_keywords
            else query)
      else query)"

definition search_with_route ::
  "backend \<Rightarrow> (ustr \<Rightarrow> ustr) \<Rightarrow> ustr \<Rightarrow> route_decision \<Rightarrow> int \<Rightarrow> hit list" where
  "search_with_route b lower query rd top_k =
     (let where_f = build_route_filters rd;
          enhanced_query = enhance_query lower query rd;
          results = route_aware_search b enhanced_query where_f (top_k * 5);
          ranked = rerank_with_route_bonuses results rd
      in py_take top_k ranked)"

section \<open>The result fuser (database.py, \<open>_combine_results\<close>)\<close>

text \<open>
  \<open>combined\<close> is a dict keyed by document id. A Python dict keeps insertion order,
  and assigning to a key that is present keeps its position: an association list
  updated with \<open>AList.update\<close>.
\<close>

type_synonym combined = "(ustr option \<times> hit) list"

definition seed_hit :: "nat \<Rightarrow> hit \<Rightarrow> hit" where
  "seed_hit i result =
     (let base = max 0 ((2 - distance result) * 50);
          position_bonus = max 0 ((10 - real i) * 5)
      in result\<lparr>embedding_rank := Some (i + 1), keyword_rank := None,
                relevance_score := base + position_bonus, stype := Embedding\<rparr>)"

fun embedding_loop :: "nat \<Rightarrow> hit list \<Rightarrow> combined \<Rightarrow> combined" where
  "embedding_loop i [] combined = combined"
| "embedding_loop i (result # rest) combined =
     embedding_loop (i + 1) rest (AList.update (doc_id result) (seed_hit i result) combined)"

definition boost_hit :: "nat \<Rightarrow> hit \<Rightarrow> hit \<Rightarrow> hit" where
  "boost_hit i result present =
     (let keyword_boost = relevance_score result * 2
      in present\<lparr>relevance_score := relevance_score present + keyword_boost,
                 stype := Hybrid, keyword_rank := Some (i + 1)\<rparr>)"

definition new_keyword_hit :: "nat \<Rightarrow> hit \<Rightarrow> hit" where
  "new_keyword_hit i result =
     result\<lparr>keyword_rank := Some (i + 1), embedding_rank := None,
            relevance_score := relevance_score result * 3, stype := Keyword\<rparr>"

fun keyword_loop :: "nat \<Rightarrow> hit list \<Rightarrow> combined \<Rightarrow> combined" where
  "keyword_loop i [] combined = combined"
| "keyword_loop i (result # rest) combined =
     keyword_loop (i + 1) rest
       (case map_of combined (doc_id result) of
          Some present \<Rightarrow>
            AList.update (doc_id result) (boost_hit i result present) combined
        | None \<Rightarrow>
            AList.update (doc_id result) (new_keyword_hit i result) combined)"

definition combine_results :: "hit list \<Rightarrow> hit list \<Rightarrow> int \<Rightarrow> hit list" where
  "combine_results embedding_results keyword_results top_k =
     (let combined = embedding_loop 0 embedding_results [];
          combined = keyword_loop 0 keyword_results combined;
          final = sort_by_score_desc (map snd combined)
      in py_take top_k final)"

subsection \<open>The fuser as the specification words it\<close>

definition seed_score :: "real \<Rightarrow> nat \<Rightarrow> real" where
  "seed_score d rank = max 0 ((2 - d) * 50) + max 0 ((10 - real rank) * 5)"

text \<open>The lexical hit for a document id, with its 0-based position counted from \<open>j\<close>.\<close>

fun lexical_of :: "nat \<Rightarrow> hit list \<Rightarrow> ustr option \<Rightarrow> (nat \<times> hit) option" where
  "lexical_of j [] d = None"
| "lexical_of j (l # ls) d = (if doc_id l = d then Some (j, l) else lexical_of (j + 1) ls d)"

definition fused_vector_hit :: "hit list \<Rightarrow> nat \<times> hit \<Rightarrow> hit" where
  "fused_vector_hit lexical = (\<lambda>(rank, v).
     case lexical_of 0 lexical (doc_id v) of
       None \<Rightarrow>
         v\<lparr>relevance_score := seed_score (distance v) rank, stype := Embedding,
           embedding_rank := Some (rank + 1), keyword_rank := None\<rparr>
     | Some (j, l) \<Rightarrow>
         v\<lparr>relevance_score := seed_score (distance v) rank + 2 * relevance_score l,
           stype := Hybrid, embedding_rank := Some (rank + 1), keyword_rank := Some (j + 1)\<rparr>)"

definition fused_lexical_hit :: "nat \<times> hit \<Rightarrow> hit" where
  "fused_lexical_hit = (\<lambda>(j, l).
     l\<lparr>relevance_score := 3 * relevance_score l, stype := Keyword,
       embedding_rank := None, keyword_rank := Some (j + 1)\<rparr>)"

text \<open>The fused entries before ranking: the vector hits in their order, then the new lexical hits.\<close>

definition fused_entries :: "hit list \<Rightarrow> hit list \<Rightarrow> hit list" where
  "fused_entries vector lexical =
     map (fused_vector_hit lexical) (enumerate 0 vector)
     @ map fused_lexical_hit
         (filter (\<lambda>(j, l). doc_id l \<notin> doc_id ` set vector) (enumerate 0 lexical))"

text \<open>
  A ranking of a list of hits: the same hits, in descending order of score, hits of
  equal score in their original order.
\<close>

definition ranking_of :: "hit list \<Rightarrow> hit list \<Rightarrow> bool" where
  "ranking_of ranked hs \<longleftrightarrow>
     mset ranked = mset hs
   \<and> sorted_wrt (\<lambda>a b. relevance_score b \<le> relevance_score a) ranked
   \<and> (\<forall>s. filter (\<lambda>h. relevance_score h = s) ranked
            = filter (\<lambda>h. relevance_score h = s) hs)"

text \<open>The fused list: the library's stable sort on the negated score, cut to \<open>topK\<close>.\<close>

definition fuse :: "hit list \<Rightarrow> hit list \<Rightarrow> nat \<Rightarrow> hit list" where
  "fuse vector lexical topK =
     take topK (sort_key (\<lambda>h. - relevance_score h) (fused_entries vector lexical))"

text \<open>What the keyword loop does, over its whole run, to an entry that is present.\<close>

definition boosted :: "nat \<Rightarrow> hit list \<Rightarrow> ustr option \<Rightarrow> hit \<Rightarrow> hit" where
  "boosted i ks key h = (case lexical_of i ks key of None \<Rightarrow> h | Some (j, l) \<Rightarrow> boost_hit j l h)"

section \<open>The lexical scorer (database.py, \<open>_calculate_keyword_score\<close>)\<close>

text \<open>\<open>s.startswith(p)\<close>.\<close>

fun starts_with :: "ustr \<Rightarrow> ustr \<Rightarrow> bool" where
  "starts_with s [] = True"
| "starts_with [] (p # ps) = False"
| "starts_with (c # cs) (p # ps) = (c = p \<and> starts_with cs ps)"

text \<open>\<open>sub in s\<close>: \<open>sub\<close> occurs in \<open>s\<close> as a contiguous substring.\<close>

fun py_in :: "ustr \<Rightarrow> ustr \<Rightarrow> bool" where
  "py_in sub [] = (sub = [])"
| "py_in sub (c # cs) = (starts_with (c # cs) sub \<or> py_in sub cs)"

text \<open>
  \<open>s.count(sub)\<close> counts non-overlapping occurrences from the left: after a match the
  scan resumes behind it (\<open>skip\<close> characters are passed over). The count of the empty
  string is \<open>len(s) + 1\<close>.
\<close>

fun count_scan :: "nat \<Rightarrow> ustr \<Rightarrow> ustr \<Rightarrow> nat" where
  "count_scan skip [] sub = 0"
| "count_scan skip (c # cs) sub =
     (if 0 < skip then count_scan (skip - 1) cs sub
      else if starts_with (c # cs) sub then 1 + count_scan (length sub - 1) cs sub
      else count_scan 0 cs sub)"

definition py_count :: "ustr \<Rightarrow> ustr \<Rightarrow> nat" where
  "py_count s sub = (if sub = [] then length s + 1 else count_scan 0 s sub)"

text \<open>
  \<open>rapidfuzz.fuzz.ratio\<close> is a parameter of the scorer. For concrete evaluations it is
  the normalised indel similarity of the library's documentation:
  \<open>100 * 2 * lcs / (len1 + len2)\<close>, and 100 for two empty strings.
\<close>

fun lcs_len :: "ustr \<Rightarrow> ustr \<Rightarrow> nat" where
  "lcs_len [] ys = 0"
| "lcs_len (x # xs) [] = 0"
| "lcs_len (x # xs) (y # ys) =
     (if x = y then 1 + lcs_len xs ys else max (lcs_len xs (y # ys)) (lcs_len (x # xs) ys))"

definition fuzz_ratio :: "ustr \<Rightarrow> ustr \<Rightarrow> real" where
  "fuzz_ratio a b =
     (if length a + length b = 0 then 100
      else 100 * (2 * real (lcs_len a b)) / real (length a + length b))"

text \<open>\<open>str.lower\<close> on ASCII text; in general it is a parameter of the scorer.\<close>

definition ascii_lower :: "ustr \<Rightarrow> ustr" where
  "ascii_lower s = map (\<lambda>c. if 65 \<le> c \<and> c \<le> 90 then c + 32 else c) s"

text \<open>The inner loops: scan the words, add the bonus at the first match and \<open>break\<close>.\<close>

fun fuzzy_loop :: "(ustr \<Rightarrow> ustr \<Rightarrow> real) \<Rightarrow> ustr \<Rightarrow> ustr list \<Rightarrow> real \<Rightarrow> real \<Rightarrow> real" where
  "fuzzy_loop ratio keyword [] bonus score = score"
| "fuzzy_loop ratio keyword (word # rest) bonus score =
     (if ratio keyword word > 85 then score + bonus
      else fuzzy_loop ratio keyword rest bonus score)"

text \<open>The body of the loop over the keywords.\<close>

definition keyword_step ::
  "(ustr \<Rightarrow> ustr \<Rightarrow> real) \<Rightarrow> ustr \<Rightarrow> ustr \<Rightarrow> real \<Rightarrow> ustr \<Rightarrow> real" where
  "keyword_step ratio title_l content_lower score keyword =
     (let score = (if py_in keyword title_l then score + 30 else score);
          content_count = py_count content_lower keyword;
          score = score + real content_count * 3
      in if length keyword > 3 then
           (let score = fuzzy_loop ratio keyword (py_split title_l) 8 score;
                score = fuzzy_loop ratio keyword (py_split content_lower) 4 score
            in score)
         else score)"

definition calculate_keyword_score ::
  "(ustr \<Rightarrow> ustr) \<Rightarrow> (ustr \<Rightarrow> ustr \<Rightarrow> real) \<Rightarrow> ustr \<Rightarrow> ustr list \<Rightarrow> metadata \<Rightarrow> real" where
  "calculate_keyword_score lower ratio content_s keywords md =
     (let content_lower = lower content_s;
          title_l = lower (case title md of None \<Rightarrow> [] | Some t \<Rightarrow> t)
      in foldl (keyword_step ratio title_l content_lower) 0 keywords)"

subsection \<open>The score as the specification words it\<close>

definition fuzzy_match :: "(ustr \<Rightarrow> ustr \<Rightarrow> real) \<Rightarrow> ustr \<Rightarrow> ustr \<Rightarrow> bool" where
  "fuzzy_match ratio keyword text_s \<longleftrightarrow> (\<exists>w \<in> set (py_split text_s). ratio keyword w > 85)"

text \<open>The points of one keyword as the claim has them: no condition on the keyword.\<close>

definition claimed_points :: "(ustr \<Rightarrow> ustr \<Rightarrow> real) \<Rightarrow> ustr \<Rightarrow> ustr \<Rightarrow> ustr \<Rightarrow> real" where
  "claimed_points ratio title_l body keyword =
     (if py_in keyword title_l then 30 else 0)
     + 3 * real (py_count body keyword)
     + (if fuzzy_match ratio keyword title_l then 8 else 0)
     + (if fuzzy_match ratio keyword body then 4 else 0)"

text \<open>The points of one keyword in the code: fuzzy bonuses only for keywords of 4 or more characters.\<close>

definition keyword_points :: "(ustr \<Rightarrow> ustr \<Rightarrow> real) \<Rightarrow> ustr \<Rightarrow> ustr \<Rightarrow> ustr \<Rightarrow> real" where
  "keyword_points ratio title_l body keyword =
     (if py_in keyword title_l then 30 else 0)
     + 3 * real (py_count body keyword)
     + (if length keyword > 3 \<and> fuzzy_match ratio keyword title_l then 8 else 0)
     + (if length keyword > 3 \<and> fuzzy_match ratio keyword body then 4 else 0)"

section \<open>The result validator (result_validator.py)\<close>

record validation_decision =
  is_relevant :: bool
  selected_indices :: "int list"
  vconfidence :: real
  vreasoning :: ustr
  needs_reformulation :: bool
  reformulated_query :: "ustr option"
  reformulation_strategy :: "ustr option"

text \<open>
  The JSON object of a validation answer; \<open>None\<close> is a key that is absent (or, for the
  two optional strings, \<open>null\<close>).
\<close>

record validation_json =
  j_is_relevant :: "bool option"
  j_selected_indices :: "int list option"
  j_confidence :: "real option"
  j_reasoning :: "ustr option"
  j_needs_reformulation :: "bool option"
  j_reformulated_query :: "ustr option"
  j_reformulation_strategy :: "ustr option"

text \<open>
  One request to the reasoning service, as the retry loops see it: \<open>Parsed\<close> when
  \<open>_extract_json_from_llm\<close> found a non-empty JSON object, \<open>Unparsed\<close> when it
  returned nothing (malformed output), \<open>HttpError\<close> for a status other than 200 (with
  the status as printed), \<open>Raised\<close> for an exception inside the \<open>try\<close> block (with
  its message).
\<close>

datatype 'j llm_reply = Parsed 'j | Unparsed | HttpError ustr | Raised ustr

text \<open>What the service answers to request number \<open>retry\<close> of search attempt \<open>attempt\<close>.\<close>

type_synonym validator_llm = "nat \<Rightarrow> nat \<Rightarrow> validation_json llm_reply"

record summary =
  s_index :: nat
  s_title :: ustr
  s_content_preview :: ustr
  s_faculty :: "ustr option"
  s_department :: "ustr option"
  s_category :: "ustr option"
  s_news_type :: "ustr option"
  s_relevance_score :: real
  s_search_type :: search_type

text \<open>"No title" in Ukrainian (Bez zaholovka).\<close>

definition no_title :: ustr where
  "no_title = [1041, 1077, 1079, 32, 1079, 1072, 1075, 1086, 1083, 1086, 1074, 1082, 1072]"

definition summarize_one :: "nat \<Rightarrow> nat \<Rightarrow> hit \<Rightarrow> summary" where
  "summarize_one max_chars i result =
     \<lparr>s_index = i,
      s_title = (case title (meta result) of None \<Rightarrow> no_title | Some t \<Rightarrow> t),
      s_content_preview =
        (if length (content result) > max_chars
         then take max_chars (content result) @ u ''...'' else content result),
      s_faculty = faculty (meta result),
      s_department = department (meta result),
      s_category = category (meta result),
      s_news_type = news_type (meta result),
      s_relevance_score = relevance_score result,
      s_search_type = stype result\<rparr>"

definition summarize_results :: "hit list \<Rightarrow> summary list" where
  "summarize_results results =
     map (\<lambda>(i, result). summarize_one 150 i result) (enumerate 1 results)"

definition decision_of_json :: "validation_json \<Rightarrow> validation_decision" where
  "decision_of_json parsed =
     \<lparr>is_relevant = (case j_is_relevant parsed of None \<Rightarrow> False | Some b \<Rightarrow> b),
      selected_indices = (case j_selected_indices parsed of None \<Rightarrow> [] | Some l \<Rightarrow> l),
      vconfidence = (case j_confidence parsed of None \<Rightarrow> 0 | Some c \<Rightarrow> c),
      vreasoning = (case j_reasoning parsed of None \<Rightarrow> [] | Some r \<Rightarrow> r),
      needs_reformulation = (case j_needs_reformulation parsed of None \<Rightarrow> False | Some b \<Rightarrow> b),
      reformulated_query = j_reformulated_query parsed,
      reformulation_strategy = j_reformulation_strategy parsed\<rparr>"

text \<open>The reasoning of the permissive default (Fallback: LLM ne zmih rozparsyty JSON ...).\<close>

definition fallback_reasoning :: ustr where
  "fallback_reasoning = [70, 97, 108, 108, 98, 97, 99, 107, 58, 32, 76, 76, 77, 32, 1085,
     1077, 32, 1079, 1084, 1110, 1075, 32, 1088, 1086, 1079, 1087, 1072, 1088, 1089, 1080,
     1090, 1080, 32, 74, 83, 79, 78, 32, 1087, 1110, 1089, 1083, 1103, 32, 1074, 1089, 1110,
     1093, 32, 1089, 1087, 1088, 1086, 1073]"

definition parse_fallback :: "summary list \<Rightarrow> validation_decision" where
  "parse_fallback summarized_results =
     \<lparr>is_relevant = (length summarized_results > 0),
      selected_indices = (if length summarized_results \<ge> 3 then [1, 2, 3]
                          else map int [1..<length summarized_results + 1]),
      vconfidence = 3 / 10,
      vreasoning = fallback_reasoning,
      needs_reformulation = False,
      reformulated_query = None,
      reformulation_strategy = None\<rparr>"

definition failed_decision :: "ustr \<Rightarrow> validation_decision" where
  "failed_decision why =
     \<lparr>is_relevant = False, selected_indices = [], vconfidence = 0, vreasoning = why,
      needs_reformulation = False, reformulated_query = None,
      reformulation_strategy = None\<rparr>"

text \<open>
  An event of one question's retrieval: a call of \<open>search_with_route\<close>, a request to
  the reasoning service made by the validator, the return of \<open>validate_and_select\<close>.
\<close>

datatype event =
    SearchEv nat ustr
  | LlmEv nat nat
  | ValidatedEv nat validation_decision "hit list"

text \<open>
  The retry loop of \<open>_llm_validation\<close>, \<open>for retry_attempt in range(1, max_retries + 1)\<close>,
  entered at \<open>retry_attempt\<close>. It returns the decision and the requests it made.
\<close>

function llm_validation_loop ::
  "validator_llm \<Rightarrow> summary list \<Rightarrow> nat \<Rightarrow> nat \<Rightarrow> nat \<Rightarrow> validation_decision \<times> event list" where
  "llm_validation_loop llm summarized_results attempt max_retries retry_attempt =
     (if retry_attempt > max_retries
      then (failed_decision (u ''Unknown error in retry loop''), [])
      else
        (case llm attempt retry_attempt of
           Parsed parsed \<Rightarrow> (decision_of_json parsed, [LlmEv attempt retry_attempt])
         | Unparsed \<Rightarrow>
             (if retry_attempt < max_retries
              then (let (d, evs) = llm_validation_loop llm summarized_results attempt
                                     max_retries (retry_attempt + 1)
                    in (d, LlmEv attempt retry_attempt # evs))
              else (parse_fallback summarized_results, [LlmEv attempt retry_attempt]))
         | HttpError status \<Rightarrow>
             (if retry_attempt < max_retries
              then (let (d, evs) = llm_validation_loop llm summarized_results attempt
                                     max_retries (retry_attempt + 1)
                    in (d, LlmEv attempt retry_attempt # evs))
              else (failed_decision (u ''HTTP error '' @ status),
                    [LlmEv attempt retry_attempt]))
         | Raised msg \<Rightarrow>
             (if retry_attempt < max_retries
              then (let (d, evs) = llm_validation_loop llm summarized_results attempt
                                     max_retries (retry_attempt + 1)
                    in (d, LlmEv attempt retry_attempt # evs))
              else (failed_decision (u ''Exception: '' @ msg),
                    [LlmEv attempt retry_attempt]))))"
  by pat_completeness auto
termination
  by (relation "measure (\<lambda>(llm, s, a, max_retries, retry_attempt). max_retries + 1 - retry_attempt)")
     auto

definition llm_validation ::
  "validator_llm \<Rightarrow> summary list \<Rightarrow> nat \<Rightarrow> validation_decision \<times> event list" where
  "llm_validation llm summarized_results attempt =
     llm_validation_loop llm summarized_results attempt 3 1"

text \<open>\<open>[search_results[i-1] for i in selected_indices if 1 <= i <= len(search_results)]\<close>\<close>

definition select_results :: "hit list \<Rightarrow> int list \<Rightarrow> hit list" where
  "select_results search_results indices =
     map (\<lambda>i. search_results ! nat (i - 1))
       (filter (\<lambda>i. 1 \<le> i \<and> i \<le> int (length search_results)) indices)"

text \<open>The validator's own \<open>self.max_retries\<close>.\<close>

definition validator_max_retries :: nat where
  "validator_max_retries = 2"

definition validate_and_select ::
  "validator_llm \<Rightarrow> hit list \<Rightarrow> nat \<Rightarrow> validation_decision \<times> hit list \<times> event list" where
  "validate_and_select llm search_results attempt =
     (let summarized_results = summarize_results search_results;
          (decision, evs) = llm_validation llm summarized_results attempt
      in if needs_reformulation decision \<and> attempt < validator_max_retries
         then (decision, [], evs)
         else if is_relevant decision \<and> selected_indices decision \<noteq> []
         then (decision, select_results search_results (selected_indices decision), evs)
         else (decision, [], evs))"

section \<open>The retrieval orchestrator (assistant.py, \<open>_search_with_validation\<close>)\<close>

definition MAX_ATTEMPTS :: nat where
  "MAX_ATTEMPTS = 3"

text \<open>\<open>current_query.split()[0] if len(current_query.split()) > 1 else current_query\<close>\<close>

definition simplify_query :: "ustr \<Rightarrow> ustr" where
  "simplify_query current_query =
     (if length (py_split current_query) > 1 then hd (py_split current_query)
      else current_query)"

text \<open>
  The loop \<open>for attempt in range(1, MAX_ATTEMPTS + 1)\<close>, entered at \<open>attempt\<close> with
  \<open>current_query\<close>. \<open>db attempt query\<close> is what \<open>search_with_route\<close> returns at that
  attempt. The result is the returned list and the events in the order they happened.
\<close>

function search_loop ::
  "(nat \<Rightarrow> ustr \<Rightarrow> hit list) \<Rightarrow> validator_llm \<Rightarrow> nat \<Rightarrow> ustr \<Rightarrow> hit list \<times> event list" where
  "search_loop db llm attempt current_query =
     (if attempt > MAX_ATTEMPTS then ([], [])
      else
        (let raw_results = db attempt current_query in
         if raw_results = [] then
           (if attempt = MAX_ATTEMPTS then ([], [SearchEv attempt current_query])
            else (let (res, evs) = search_loop db llm (attempt + 1)
                                     (simplify_query current_query)
                  in (res, SearchEv attempt current_query # evs)))
         else
           (let (decision, selected_results, vevs) = validate_and_select llm raw_results attempt;
                done = SearchEv attempt current_query
                         # vevs @ [ValidatedEv attempt decision selected_results]
            in if is_relevant decision \<and> selected_results \<noteq> [] then (selected_results, done)
               else if needs_reformulation decision
                       \<and> truthy_str (reformulated_query decision) then
                 (if attempt = MAX_ATTEMPTS then ([], done)
                  else (let (res, evs) = search_loop db llm (attempt + 1)
                                           (the (reformulated_query decision))
                        in (res, done @ evs)))
               else (selected_results, done))))"
  by pat_completeness auto
termination
  by (relation "measure (\<lambda>(db, llm, attempt, q). MAX_ATTEMPTS + 1 - attempt)") auto

text \<open>
  \<open>backends attempt\<close> is the state of the encoder and of the store at the search of that
  attempt.
\<close>

definition search_with_validation ::
  "(nat \<Rightarrow> backend) \<Rightarrow> (ustr \<Rightarrow> ustr) \<Rightarrow> validator_llm \<Rightarrow> ustr \<Rightarrow> route_decision
     \<Rightarrow> hit list \<times> event list" where
  "search_with_validation backends lower llm message rd =
     (let current_query = (if enhancement_keywords rd \<noteq> []
                           then py_join (u '' '') (enhancement_keywords rd) else message)
      in search_loop (\<lambda>attempt query. search_with_route (backends attempt) lower query rd 15)
           llm 1 current_query)"

text \<open>Counting the events of a run.\<close>

fun is_search :: "event \<Rightarrow> bool" where
  "is_search (SearchEv a q) = True"
| "is_search e = False"

fun is_llm :: "event \<Rightarrow> bool" where
  "is_llm (LlmEv a r) = True"
| "is_llm e = False"

fun is_validated :: "event \<Rightarrow> bool" where
  "is_validated (ValidatedEv a d sel) = True"
| "is_validated e = False"

text \<open>A reasoning service whose output is never parseable.\<close>

definition always_unparsed :: validator_llm where
  "always_unparsed = (\<lambda>attempt retry. Unparsed)"

section \<open>Concrete inputs\<close>

text \<open>The faculty code of the computer-science faculty (transliterated: FKNT).\<close>

definition fknt :: ustr where
  "fknt = [1060, 1050, 1053, 1058]"

definition failing_encoder :: backend where
  "failing_encoder = \<lparr>encode = (\<lambda>_. Inl ServiceError),
     store_query = (\<lambda>_ _ _. Inr \<lparr>documents = None, metadatas = None, distances = None,
       ids = None\<rparr>)\<rparr>"

definition failing_store :: backend where
  "failing_store = \<lparr>encode = (\<lambda>_. Inr [0]), store_query = (\<lambda>_ _ _. Inl ServiceError)\<rparr>"

definition meta_fknt :: metadata where
  "meta_fknt = empty_metadata\<lparr>faculty := Some fknt\<rparr>"

definition meta_fknt_dept :: metadata where
  "meta_fknt_dept = empty_metadata\<lparr>faculty := Some fknt, department := Some (u ''D'')\<rparr>"

text \<open>A store holding two documents, at distances 0.4 and 6 from every query.\<close>

definition two_docs :: query_result where
  "two_docs = \<lparr>documents = Some [[u ''first'', u ''second'']],
     metadatas = Some [[meta_fknt_dept, meta_fknt]],
     distances = Some [[2 / 5, 6]],
     ids = Some [[u ''a'', u ''b'']]\<rparr>"

definition two_docs_store :: backend where
  "two_docs_store = \<lparr>encode = (\<lambda>_. Inr [0]), store_query = (\<lambda>_ _ _. Inr two_docs)\<rparr>"

definition route_fknt :: route_decision where
  "route_fknt = \<lparr>search_scope = fknt, search_level = u ''faculty'', target_entity = None,
     search_intent = u ''info'', enhancement_keywords = [], confidence = 1 / 2,
     reasoning = [], needs_database_search = True\<rparr>"

definition hit_with_dept :: hit where
  "hit_with_dept = \<lparr>content = u ''first'', meta = meta_fknt_dept, distance = 2,
     relevance_score = 1 / 2, doc_id = Some (u ''a''), stype = Routed,
     embedding_rank = None, keyword_rank = None, route_bonus = None\<rparr>"

definition hit_without_dept :: hit where
  "hit_without_dept = \<lparr>content = u ''second'', meta = meta_fknt, distance = 2,
     relevance_score = 1 / 2, doc_id = Some (u ''b''), stype = Routed,
     embedding_rank = None, keyword_rank = None, route_bonus = None\<rparr>"


definition mk_hit :: "string \<Rightarrow> real \<Rightarrow> real \<Rightarrow> search_type \<Rightarrow> hit" where
  "mk_hit name d score t = \<lparr>content = [], meta = empty_metadata, distance = d,
     relevance_score = score, doc_id = Some (u name), stype = t,
     embedding_rank = None, keyword_rank = None, route_bonus = None\<rparr>"

definition bounded_run :: "nat \<Rightarrow> hit list \<times> event list \<Rightarrow> bool" where
  "bounded_run n r \<longleftrightarrow>
     length (filter is_search (snd r)) \<le> n
   \<and> length (filter is_validated (snd r)) \<le> length (filter is_search (snd r))
   \<and> length (filter is_llm (snd r)) \<le> 3 * length (filter is_validated (snd r))
   \<and> length (snd r) = length (filter is_search (snd r)) + length (filter is_llm (snd r))
                        + length (filter is_validated (snd r))
   \<and> (fst r = [] \<or> (snd r \<noteq> [] \<and> (\<exists>a d. last (snd r) = ValidatedEv a d (fst r) \<and> is_relevant d)))"


text \<open>Scenario 4's query (kafedra informatsiinykh tekhnolohii biudzhet) and its first token.\<close>

definition q4 :: ustr where
  "q4 = [1082, 1072, 1092, 1077, 1076, 1088, 1072, 32, 1110, 1085, 1092, 1086, 1088, 1084,
     1072, 1094, 1110, 1081, 1085, 1080, 1093, 32, 1090, 1077, 1093, 1085, 1086, 1083, 1086,
     1075, 1110, 1081, 32, 1073, 1102, 1076, 1078, 1077, 1090]"

definition kafedra :: ustr where
  "kafedra = [1082, 1072, 1092, 1077, 1076, 1088, 1072]"

text \<open>A validator answer that asks for a reformulation to the query "x".\<close>

definition reformulate_json :: validation_json where
  "reformulate_json = \<lparr>j_is_relevant = Some False, j_selected_indices = Some [],
     j_confidence = Some (1 / 5), j_reasoning = None, j_needs_reformulation = Some True,
     j_reformulated_query = Some (u ''x''), j_reformulation_strategy = None\<rparr>"

definition always_reformulate :: validator_llm where
  "always_reformulate = (\<lambda>attempt retry. Parsed reformulate_json)"

text \<open>A search that finds nothing at the first attempt and one document afterwards.\<close>

definition empty_first :: "nat \<Rightarrow> ustr \<Rightarrow> hit list" where
  "empty_first = (\<lambda>attempt query. if attempt = 1 then [] else [hit_with_dept])"

text \<open>Services whose store fails at the first attempt and holds two documents afterwards.\<close>

definition store_down_first :: "nat \<Rightarrow> backend" where
  "store_down_first = (\<lambda>attempt. if attempt = 1 then failing_store else two_docs_store)"

section \<open>The query router (query_router.py)\<close>

text \<open>
  An entity found by \<open>extract_entities_from_text\<close> (module \<open>nau_structure\<close>): a dict
  with the keys \<open>type\<close>, \<open>code\<close>, \<open>faculty_code\<close>, \<open>matched_alias\<close> and
  \<open>full_name\<close>. The extractor itself is a parameter of the router.
\<close>

record entity =
  e_type :: ustr
  e_code :: ustr
  e_faculty_code :: ustr
  e_matched_alias :: ustr
  e_full_name :: ustr

record message =
  m_role :: ustr
  m_content :: ustr

text \<open>
  What the router takes from outside the program: the entity extractor, Python's
  \<open>str.lower\<close> and \<open>str.upper\<close>, and the order in which \<open>list(set(keywords))\<close>
  lists the distinct keywords.
\<close>

record router_env =
  extract_entities_from_text :: "ustr \<Rightarrow> entity list"
  str_lower :: "ustr \<Rightarrow> ustr"
  str_upper :: "ustr \<Rightarrow> ustr"
  set_order :: "ustr list \<Rightarrow> ustr list"

text \<open>The string tables of the router, as lists of code points.\<close>

definition greeting_words :: "ustr list" where
  "greeting_words =
     [[1087, 1088, 1080, 1074, 1110, 1090], [1087, 1088, 1080, 1074, 1077, 1090], [1076,
     1103, 1082, 1091, 1102], [1089, 1087, 1072, 1089, 1080, 1073, 1086], [1087, 1086, 1082,
     1072], [1073, 1091, 1074, 1072, 1081], [104, 105], [104, 101, 108, 108, 111], [98, 121,
     101]]"

definition question_words :: "ustr list" where
  "question_words =
     [[1097, 1086], [1103, 1082], [1082, 1086, 1083, 1080], [1076, 1077], [1093, 1090,
     1086], [1095, 1086, 1084, 1091], [1103, 1082, 1080, 1081], [1103, 1082, 1072], [1103,
     1082, 1077], [1095, 1080]]"

definition semantic_expansions :: "(ustr \<times> ustr list) list" where
  "semantic_expansions =
     [([1087, 1086, 1083, 1110, 1090],
       [[1082, 1086, 1085, 1092, 1077, 1088, 1077, 1085, 1094, 1110, 1103], [1079, 1072,
       1093, 1110, 1076], [1079, 1091, 1089, 1090, 1088, 1110, 1095], [1089, 1077, 1084,
       1110, 1085, 1072, 1088], [1092, 1086, 1088, 1091, 1084], [1079, 1073, 1086, 1088,
       1080]]),
      ([1079, 1091, 1089, 1090, 1088, 1110, 1095],
       [[1079, 1072, 1089, 1110, 1076, 1072, 1085, 1085, 1103], [1085, 1072, 1088, 1072,
       1076, 1072], [1082, 1086, 1085, 1092, 1077, 1088, 1077, 1085, 1094, 1110, 1103],
       [1089, 1077, 1084, 1110, 1085, 1072, 1088]]),
      ([1087, 1086, 1076, 1110, 1103],
       [[1079, 1072, 1093, 1110, 1076], [1082, 1086, 1085, 1092, 1077, 1088, 1077, 1085,
       1094, 1110, 1103], [1092, 1086, 1088, 1091, 1084], [1089, 1077, 1084, 1110, 1085,
       1072, 1088], [1089, 1074, 1103, 1090, 1082, 1091, 1074, 1072, 1085, 1085, 1103]]),
      ([1074, 1080, 1082, 1083, 1072, 1076, 1072, 1095],
       [[1087, 1088, 1086, 1092, 1077, 1089, 1086, 1088], [1076, 1086, 1094, 1077, 1085,
       1090], [1079, 1072, 1074, 1110, 1076, 1091, 1074, 1072, 1095], [1085, 1072, 1091,
       1082, 1086, 1074, 1077, 1094, 1100], [1087, 1077, 1076, 1072, 1075, 1086, 1075]]),
      ([1079, 1072, 1074, 1110, 1076, 1091, 1074, 1072, 1095],
       [[1079, 1072, 1074, 1082, 1072, 1092, 1077, 1076, 1088, 1080], [1082, 1077, 1088,
       1110, 1074, 1085, 1080, 1082, 32, 1082, 1072, 1092, 1077, 1076, 1088, 1080], [1076,
       1077, 1082, 1072, 1085], [1087, 1088, 1086, 1092, 1077, 1089, 1086, 1088]]),
      ([1085, 1072, 1074, 1095, 1072, 1085, 1085, 1103],
       [[1086, 1089, 1074, 1110, 1090, 1072], [1079, 1072, 1085, 1103, 1090, 1090, 1103],
       [1087, 1072, 1088, 1080], [1083, 1077, 1082, 1094, 1110, 1111], [1089, 1077, 1084,
       1110, 1085, 1072, 1088, 1080], [1082, 1091, 1088, 1089]]),
      ([1088, 1086, 1079, 1082, 1083, 1072, 1076],
       [[1087, 1072, 1088, 1080], [1079, 1072, 1085, 1103, 1090, 1090, 1103], [1075, 1088,
       1072, 1092, 1110, 1082], [1095, 1072, 1089, 32, 1079, 1072, 1085, 1103, 1090, 1100]]),
      ([1076, 1086, 1089, 1083, 1110, 1076, 1078, 1077, 1085, 1085, 1103],
       [[1085, 1072, 1091, 1082, 1072], [1085, 1072, 1091, 1082, 1086, 1074, 1072, 32, 1088,
       1086, 1073, 1086, 1090, 1072], [1087, 1091, 1073, 1083, 1110, 1082, 1072, 1094, 1110,
       1111], [1082, 1086, 1085, 1092, 1077, 1088, 1077, 1085, 1094, 1110, 1111]]),
      ([1082, 1086, 1085, 1092, 1077, 1088, 1077, 1085, 1094, 1110, 1103],
       [[1089, 1080, 1084, 1087, 1086, 1079, 1110, 1091, 1084], [1092, 1086, 1088, 1091,
       1084], [1085, 1072, 1091, 1082, 1086, 1074, 1072, 32, 1087, 1086, 1076, 1110, 1103],
       [1089, 1077, 1084, 1110, 1085, 1072, 1088]]),
      ([1074, 1089, 1090, 1091, 1087],
       [[1072, 1073, 1110, 1090, 1091, 1088, 1110, 1108, 1085, 1090], [1087, 1088, 1080,
       1081, 1086, 1084], [1076, 1086, 1082, 1091, 1084, 1077, 1085, 1090, 1080], [1082,
       1086, 1085, 1082, 1091, 1088, 1089], [1079, 1072, 1088, 1072, 1093, 1091, 1074, 1072,
       1085, 1085, 1103]]),
      ([1082, 1086, 1085, 1090, 1072, 1082, 1090, 1080],
       [[1090, 1077, 1083, 1077, 1092, 1086, 1085], [1072, 1076, 1088, 1077, 1089, 1072],
       [101, 109, 97, 105, 108], [1079, 1074, 39, 1103, 1079, 1086, 1082], [1088, 1086,
       1079, 1090, 1072, 1096, 1091, 1074, 1072, 1085, 1085, 1103]])]"

definition intent_patterns :: "(ustr \<times> ustr list) list" where
  "intent_patterns =
     [([115, 99, 104, 101, 100, 117, 108, 101],
       [[1088, 1086, 1079, 1082, 1083, 1072, 1076], [1087, 1072, 1088, 1080], [1079, 1072,
       1085, 1103, 1090, 1090, 1103], [1082, 1086, 1083, 1080], [1086, 32, 1082, 1086, 1090,
       1088, 1110, 1081]]),
      ([110, 101, 119, 115],
       [[1085, 1086, 1074, 1080, 1085], [1087, 1086, 1076, 1110, 1081], [1086, 1089, 1090,
       1072, 1085, 1085], [1097, 1086, 32, 1085, 1086, 1074, 1086, 1075, 1086], [1072, 1082,
       1090, 1091, 1072, 1083, 1100, 1085]]),
      ([99, 111, 110, 116, 97, 99, 116, 115],
       [[1082, 1086, 1085, 1090, 1072, 1082, 1090], [1090, 1077, 1083, 1077, 1092, 1086,
       1085], [1072, 1076, 1088, 1077, 1089], [101, 109, 97, 105, 108], [1076, 1077, 32,
       1079, 1085, 1072, 1093, 1086, 1076, 1080, 1090, 1100, 1089, 1103]]),
      ([101, 118, 101, 110, 116, 115],
       [[1079, 1072, 1093, 1110, 1076], [1082, 1086, 1085, 1092, 1077, 1088, 1077, 1085,
       1094, 1110, 1103], [1089, 1077, 1084, 1110, 1085, 1072, 1088], [1079, 1091, 1089,
       1090, 1088, 1110, 1095], [1092, 1086, 1088, 1091, 1084], [1087, 1086, 1083, 1110,
       1090]]),
      ([105, 110, 102, 111],
       [[1110, 1085, 1092, 1086, 1088, 1084, 1072, 1094], [1088, 1086, 1079, 1082, 1072,
       1078, 1080], [1097, 1086], [1103, 1082], [1093, 1090, 1086], [1074, 1080, 1082, 1083,
       1072, 1076, 1072, 1095]])]"

definition intent_keywords :: "(ustr \<times> ustr list) list" where
  "intent_keywords =
     [([115, 99, 104, 101, 100, 117, 108, 101],
       [[1075, 1088, 1072, 1092, 1110, 1082], [1095, 1072, 1089], [1072, 1091, 1076, 1080,
       1090, 1086, 1088, 1110, 1103]]),
      ([110, 101, 119, 115],
       [[1087, 1086, 1076, 1110, 1103], [1086, 1075, 1086, 1083, 1086, 1096, 1077, 1085,
       1085, 1103], [1110, 1085, 1092, 1086, 1088, 1084, 1072, 1094, 1110, 1103]]),
      ([99, 111, 110, 116, 97, 99, 116, 115],
       [[1079, 1074, 39, 1103, 1079, 1086, 1082], [1090, 1077, 1083, 1077, 1092, 1086,
       1085], [1072, 1076, 1088, 1077, 1089, 1072]]),
      ([101, 118, 101, 110, 116, 115],
       [[1087, 1086, 1076, 1110, 1103], [1079, 1091, 1089, 1090, 1088, 1110, 1095], [1079,
       1072, 1093, 1110, 1076]]),
      ([105, 110, 102, 111],
       [[1110, 1085, 1092, 1086, 1088, 1084, 1072, 1094, 1110, 1103], [1076, 1072, 1085,
       1110], [1074, 1110, 1076, 1086, 1084, 1086, 1089, 1090, 1110]])]"

text \<open>The group-code patterns (IR, KIT, KI, PM, KB in Cyrillic letters).\<close>

definition group_patterns :: "ustr list" where
  "group_patterns = [[1030, 1056], [1050, 1030, 1058], [1050, 1030], [1055, 1052], [1050, 1041]]"

text \<open>\<open>any(pattern in query for pattern in patterns)\<close>\<close>

definition any_in :: "ustr list \<Rightarrow> ustr \<Rightarrow> bool" where
  "any_in patterns query = list_ex (\<lambda>pattern. py_in pattern query) patterns"

fun detect_intent_loop :: "(ustr \<times> ustr list) list \<Rightarrow> ustr \<Rightarrow> ustr" where
  "detect_intent_loop [] query = u ''info''"
| "detect_intent_loop ((intent, patterns) # rest) query =
     (if any_in patterns query then intent else detect_intent_loop rest query)"

definition detect_intent :: "ustr \<Rightarrow> ustr" where
  "detect_intent query = detect_intent_loop intent_patterns query"

definition generate_enhancement_keywords :: "router_env \<Rightarrow> ustr \<Rightarrow> ustr \<Rightarrow> ustr list" where
  "generate_enhancement_keywords env query intent =
     (let keywords = concat (map (\<lambda>(key, expansions). if py_in key query then take 3 expansions
                                                          else [])
                             semantic_expansions);
          keywords = keywords @ (case map_of intent_keywords intent of None \<Rightarrow> []
                                 | Some ks \<Rightarrow> ks)
      in take 5 (set_order env keywords))"

text \<open>
  The reasoning texts (Znaideno: ... -> ...; Kontekst z istorii: ...; Kontekst z istorii:
  fakultet ...; Vyznacheno fakultet: ...; Zahalnyi zapyt pro NAU).
\<close>

definition build_reasoning ::
  "entity list \<Rightarrow> ustr option \<Rightarrow> ustr option \<Rightarrow> ustr \<Rightarrow> ustr" where
  "build_reasoning entities context_scope context_entity scope =
     (if entities \<noteq> [] then
        [1047, 1085, 1072, 1081, 1076, 1077, 1085, 1086, 58, 32]
        @ e_matched_alias (hd entities) @ [32, 8594, 32] @ e_full_name (hd entities)
      else if truthy_str context_entity then
        [1050, 1086, 1085, 1090, 1077, 1082, 1089, 1090, 32, 1079, 32, 1110, 1089, 1090, 1086,
         1088, 1110, 1111, 58, 32] @ the context_entity
      else if truthy_str context_scope then
        [1050, 1086, 1085, 1090, 1077, 1082, 1089, 1090, 32, 1079, 32, 1110, 1089, 1090, 1086,
         1088, 1110, 1111, 58, 32, 1092, 1072, 1082, 1091, 1083, 1100, 1090, 1077, 1090, 32]
        @ the context_scope
      else if scope \<noteq> u ''global'' then
        [1042, 1080, 1079, 1085, 1072, 1095, 1077, 1085, 1086, 32, 1092, 1072, 1082, 1091,
         1083, 1100, 1090, 1077, 1090, 58, 32] @ scope
      else
        [1047, 1072, 1075, 1072, 1083, 1100, 1085, 1080, 1081, 32, 1079, 1072, 1087, 1080,
         1090, 32, 1087, 1088, 1086, 32, 1053, 1040, 1059])"

text \<open>The analysis of the history: \<open>(context_scope, context_entity)\<close>.\<close>

definition history_context ::
  "router_env \<Rightarrow> message list option \<Rightarrow> ustr option \<times> ustr option" where
  "history_context env history =
     (case history of
        None \<Rightarrow> (None, None)
      | Some hist \<Rightarrow>
          if hist = [] then (None, None)
          else
            (let recent_history = (if length hist > 6 then drop (length hist - 6) hist
                                   else hist);
                 history_text = py_join (u '' '') (map m_content recent_history);
                 history_entities = extract_entities_from_text env history_text
             in if history_entities = [] then (None, None)
                else
                  (let last_entity = last history_entities
                   in if e_type last_entity = u ''faculty''
                      then (Some (e_code last_entity), None)
                      else if e_type last_entity = u ''department''
                      then (Some (e_faculty_code last_entity), Some (e_code last_entity))
                      else (None, None))))"

text \<open>
  The priority chain of \<open>_heuristic_routing\<close>: the values of the local variables
  \<open>search_scope\<close>, \<open>search_level\<close>, \<open>target_entity\<close> and \<open>confidence\<close> after it.
\<close>

definition heuristic_scope ::
  "router_env \<Rightarrow> entity list \<Rightarrow> ustr option \<Rightarrow> ustr option \<Rightarrow> ustr option
     \<Rightarrow> ustr \<times> ustr \<times> ustr option \<times> real" where
  "heuristic_scope env entities context_scope context_entity group_name =
     (if entities \<noteq> [] then
        (let entity = hd entities
         in if e_type entity = u ''faculty''
            then (e_code entity, u ''faculty'', None, 95 / 100)
            else if e_type entity = u ''department''
            then (e_faculty_code entity, u ''department'', Some (e_code entity), 98 / 100)
            else (u ''global'', u ''general'', None, 1 / 2))
      else if truthy_str context_scope then
        (if truthy_str context_entity
         then (the context_scope, u ''department'', context_entity, 75 / 100)
         else (the context_scope, u ''faculty'', None, 70 / 100))
      else if truthy_str group_name then
        (if any_in group_patterns (str_upper env (the group_name))
         then (fknt, u ''faculty'', None, 60 / 100)
         else (u ''global'', u ''general'', None, 1 / 2))
      else (u ''global'', u ''general'', None, 1 / 2))"

definition heuristic_needs_search :: "router_env \<Rightarrow> ustr \<Rightarrow> bool" where
  "heuristic_needs_search env query =
     (let query_lower = str_lower env query;
          is_greeting = any_in greeting_words query_lower;
          has_question = any_in question_words query_lower
      in (\<not> (length (py_split query) \<le> 3 \<and> is_greeting)) \<or> has_question)"

text \<open>\<open>_heuristic_routing\<close>: the decision is built with the literal \<open>confidence=0.5\<close>.\<close>

definition heuristic_routing ::
  "router_env \<Rightarrow> ustr \<Rightarrow> message list option \<Rightarrow> ustr option \<Rightarrow> route_decision" where
  "heuristic_routing env query history group_name =
     (let query_lower = str_lower env query;
          entities = extract_entities_from_text env query;
          (context_scope, context_entity) = history_context env history;
          (scope, level, target, local_confidence) =
             heuristic_scope env entities context_scope context_entity group_name;
          intent = detect_intent query_lower;
          keywords = generate_enhancement_keywords env query_lower intent;
          reason = build_reasoning entities context_scope context_entity scope
      in \<lparr>search_scope = scope, search_level = level, target_entity = target,
          search_intent = intent, enhancement_keywords = keywords, confidence = 1 / 2,
          reasoning = reason, needs_database_search = heuristic_needs_search env query\<rparr>)"

text \<open>The JSON object of a routing answer; \<open>None\<close> is a key that is absent.\<close>

record routing_json =
  r_search_scope :: "ustr option"
  r_search_level :: "ustr option"
  r_target_entity :: "ustr option"
  r_search_intent :: "ustr option"
  r_enhancement_keywords :: "ustr list option"
  r_confidence :: "real option"
  r_reasoning :: "ustr option"
  r_needs_database_search :: "bool option"

definition route_of_json :: "routing_json \<Rightarrow> route_decision" where
  "route_of_json parsed =
     \<lparr>search_scope = (case r_search_scope parsed of None \<Rightarrow> u ''global'' | Some s \<Rightarrow> s),
      search_level = (case r_search_level parsed of None \<Rightarrow> u ''general'' | Some s \<Rightarrow> s),
      target_entity = r_target_entity parsed,
      search_intent = (case r_search_intent parsed of None \<Rightarrow> u ''info'' | Some s \<Rightarrow> s),
      enhancement_keywords = (case r_enhancement_keywords parsed of None \<Rightarrow> [] | Some k \<Rightarrow> k),
      confidence = (case r_confidence parsed of None \<Rightarrow> 1 / 2 | Some c \<Rightarrow> c),
      reasoning = (case r_reasoning parsed of None \<Rightarrow> u ''LLM routing'' | Some s \<Rightarrow> s),
      needs_database_search = (case r_needs_database_search parsed of None \<Rightarrow> True
                               | Some b \<Rightarrow> b)\<rparr>"

text \<open>What the reasoning service answers to routing request number \<open>attempt\<close>.\<close>

type_synonym router_llm = "nat \<Rightarrow> routing_json llm_reply"

text \<open>
  The retry loop of \<open>_llm_routing\<close>, \<open>for attempt in range(1, max_retries + 1)\<close>,
  entered at \<open>attempt\<close>. It returns the decision, if any, and the number of requests
  it made.
\<close>

function llm_routing_loop :: "router_llm \<Rightarrow> nat \<Rightarrow> nat \<Rightarrow> route_decision option \<times> nat" where
  "llm_routing_loop llm max_retries attempt =
     (if attempt > max_retries then (None, 0)
      else
        (case llm attempt of
           Parsed parsed \<Rightarrow> (Some (route_of_json parsed), 1)
         | Unparsed \<Rightarrow>
             (if attempt < max_retries
              then (let (d, n) = llm_routing_loop llm max_retries (attempt + 1) in (d, n + 1))
              else (None, 1))
         | HttpError status \<Rightarrow>
             (if attempt < max_retries
              then (let (d, n) = llm_routing_loop llm max_retries (attempt + 1) in (d, n + 1))
              else (None, 1))
         | Raised msg \<Rightarrow>
             (if attempt < max_retries
              then (let (d, n) = llm_routing_loop llm max_retries (attempt + 1) in (d, n + 1))
              else (None, 1))))"
  by pat_completeness auto
termination
  by (relation "measure (\<lambda>(llm, max_retries, attempt). max_retries + 1 - attempt)") auto

definition llm_routing :: "router_llm \<Rightarrow> route_decision option \<times> nat" where
  "llm_routing llm = llm_routing_loop llm 3 1"

definition route_query ::
  "router_env \<Rightarrow> router_llm \<Rightarrow> ustr \<Rightarrow> message list option \<Rightarrow> ustr option \<Rightarrow> route_decision" where
  "route_query env llm query history group_name =
     (case fst (llm_routing llm) of
        Some llm_decision \<Rightarrow> llm_decision
      | None \<Rightarrow> heuristic_routing env query history group_name)"

text \<open>Concrete inputs of the router.\<close>

text \<open>The question "Rozkazhy pro FKNT" (tell me about FKNT).\<close>

definition q_about_fknt :: ustr where
  "q_about_fknt = [1056, 1086, 1079, 1082, 1072, 1078, 1080, 32, 1087, 1088, 1086, 32,
     1060, 1050, 1053, 1058]"

definition fknt_entity :: entity where
  "fknt_entity = \<lparr>e_type = u ''faculty'', e_code = fknt, e_faculty_code = fknt,
     e_matched_alias = fknt, e_full_name = fknt\<rparr>"

text \<open>An extractor that knows the one alias FKNT; ASCII case mapping; set order as listed.\<close>

definition env_fknt :: router_env where
  "env_fknt = \<lparr>extract_entities_from_text = (\<lambda>t. if py_in fknt t then [fknt_entity] else []),
     str_lower = ascii_lower,
     str_upper = map (\<lambda>c. if 97 \<le> c \<and> c \<le> 122 then c - 32 else c),
     set_order = remdups\<rparr>"


section \<open>Properties of the vector search\<close>

lemma format_hit_score:
  "format_hit results i = Inr h \<Longrightarrow> relevance_score h = max 0 (1 - distance h / 4)"
  unfolding format_hit_def sub00_def truthy_list_def
  by (auto split: sum.splits option.splits list.splits if_splits)

lemma format_hit_stype: "format_hit results i = Inr h \<Longrightarrow> stype h = Routed"
  unfolding format_hit_def
  by (auto split: sum.splits if_splits)

lemma format_loop_all:
  "format_loop results is = Inr hs \<Longrightarrow> h \<in> set hs \<Longrightarrow> \<exists>i. format_hit results i = Inr h"
  by (induction "is" arbitrary: hs) (auto split: sum.splits)

lemma route_aware_search_body_hit:
  assumes "route_aware_search_body b q f k = Inr hs" and "h \<in> set hs"
  shows "\<exists>results i. format_hit results i = Inr h"
proof -
  from assms(1) have "(\<exists>results is. format_loop results is = Inr hs) \<or> hs = []"
    unfolding route_aware_search_body_def
    by (auto split: sum.splits option.splits list.splits if_splits)
  with assms(2) show ?thesis using format_loop_all by fastforce
qed

lemma route_aware_search_hit:
  assumes "h \<in> set (route_aware_search b q f k)"
  shows "\<exists>results i. format_hit results i = Inr h"
proof (cases "route_aware_search_body b q f k")
  case (Inl e)
  with assms show ?thesis by (simp add: route_aware_search_def)
next
  case (Inr hs)
  with assms have "h \<in> set hs" by (simp add: route_aware_search_def)
  with Inr show ?thesis by (rule route_aware_search_body_hit)
qed

text \<open>
  C9. For any query text, filter and result count, the vector search never raises to its
  caller: an error of the encoder or of the store (indeed any error inside the body)
  yields the empty list, and every hit that is returned has
  \<open>relevance_score = max(0, 1 - distance/4)\<close>.
\<close>

theorem route_aware_search_degrades_gracefully:
  "(route_aware_search_body b q f k = Inl e \<longrightarrow> route_aware_search b q f k = [])
   \<and> (encode b (u ''query: '' @ q) = Inl e \<longrightarrow> route_aware_search b q f k = [])
   \<and> (encode b (u ''query: '' @ q) = Inr v \<and> store_query b v k f = Inl e
        \<longrightarrow> route_aware_search b q f k = [])
   \<and> (\<forall>h \<in> set (route_aware_search b q f k).
          relevance_score h = max 0 (1 - distance h / 4))"
proof -
  have "\<forall>h \<in> set (route_aware_search b q f k). relevance_score h = max 0 (1 - distance h / 4)"
    using route_aware_search_hit format_hit_score by blast
  then show ?thesis
    by (simp add: route_aware_search_def route_aware_search_body_def)
qed

theorem route_aware_search_degrades_gracefully_witness:
  "encode failing_encoder (u ''query: '' @ u ''x'') = Inl ServiceError
   \<and> route_aware_search failing_encoder (u ''x'') (Single (Eq SourceF (u ''news''))) 75 = []
   \<and> encode failing_store (u ''query: '' @ u ''x'') = Inr [0]
   \<and> store_query failing_store [0] 75 (Single (Eq SourceF (u ''news''))) = Inl ServiceError
   \<and> route_aware_search failing_store (u ''x'') (Single (Eq SourceF (u ''news''))) 75 = []
   \<and> map relevance_score
        (route_aware_search two_docs_store (u ''x'') (Single (Eq SourceF (u ''news''))) 75)
       = [9 / 10, 0]
   \<and> map distance
        (route_aware_search two_docs_store (u ''x'') (Single (Eq SourceF (u ''news''))) 75)
       = [2 / 5, 6]"
  using route_aware_search_degrades_gracefully
          [of failing_encoder "u ''x''" "Single (Eq SourceF (u ''news''))" 75 ServiceError "[0]"]
        route_aware_search_degrades_gracefully
          [of failing_store "u ''x''" "Single (Eq SourceF (u ''news''))" 75 ServiceError "[0]"]
        route_aware_search_degrades_gracefully
          [of two_docs_store "u ''x''" "Single (Eq SourceF (u ''news''))" 75 ServiceError "[0]"]
  by (simp add: failing_encoder_def failing_store_def two_docs_store_def two_docs_def
      route_aware_search_def route_aware_search_body_def format_hit_def sub00_def
      py_index_def truthy_list_def)

section \<open>Properties of the route-bonus re-ranking\<close>



lemma rerank_set:
  "set (rerank_with_route_bonuses results rd) = add_route_bonus rd ` set results"
  by (simp add: rerank_with_route_bonuses_def sort_by_score_desc_def)






section \<open>Properties of the result fuser\<close>

lemma update_fresh: "k \<notin> fst ` set al \<Longrightarrow> AList.update k v al = al @ [(k, v)]"
  by (induction al) auto

lemma map_other_keys:
  "k \<notin> fst ` set al \<Longrightarrow> map (\<lambda>(k', x). if k' = k then (k', v) else (k', x)) al = al"
  by (induction al) auto

lemma update_present:
  "distinct (map fst al) \<Longrightarrow> k \<in> fst ` set al \<Longrightarrow>
   AList.update k v al = map (\<lambda>(k', x). if k' = k then (k', v) else (k', x)) al"
  by (induction al) (auto simp: map_other_keys)

lemma embedding_loop_distinct:
  "distinct (map doc_id vs) \<Longrightarrow> \<forall>v \<in> set vs. doc_id v \<notin> fst ` set c \<Longrightarrow>
   embedding_loop i vs c = c @ map (\<lambda>(j, v). (doc_id v, seed_hit j v)) (enumerate i vs)"
proof (induction vs arbitrary: i c)
  case Nil
  then show ?case by simp
next
  case (Cons v vs)
  let ?c = "AList.update (doc_id v) (seed_hit i v) c"
  have c: "?c = c @ [(doc_id v, seed_hit i v)]"
    using Cons.prems by (simp add: update_fresh)
  have fresh: "\<forall>w \<in> set vs. doc_id w \<notin> fst ` set ?c"
  proof
    fix w assume w: "w \<in> set vs"
    then have "doc_id w \<notin> fst ` set c" using Cons.prems(2) by simp
    moreover have "doc_id v \<notin> doc_id ` set vs" using Cons.prems(1) by simp
    then have "doc_id w \<noteq> doc_id v" using w by (metis imageI)
    ultimately show "doc_id w \<notin> fst ` set ?c" unfolding c by simp
  qed
  have d: "distinct (map doc_id vs)" using Cons.prems by simp
  have "embedding_loop (i + 1) vs ?c
        = ?c @ map (\<lambda>(j, v). (doc_id v, seed_hit j v)) (enumerate (i + 1) vs)"
    by (rule Cons.IH [OF d fresh])
  then show ?case by (simp add: c)
qed

lemma enumerate_snd_mem: "e \<in> set (enumerate i xs) \<Longrightarrow> snd e \<in> set xs"
  by (induction xs arbitrary: i) auto

lemma lexical_of_None: "d \<notin> doc_id ` set ks \<Longrightarrow> lexical_of i ks d = None"
  by (induction ks arbitrary: i) auto

lemma keyword_loop_distinct:
  "distinct (map fst c) \<Longrightarrow> distinct (map doc_id ks) \<Longrightarrow>
   keyword_loop i ks c
     = map (\<lambda>(key, h). (key, boosted i ks key h)) c
       @ map (\<lambda>(j, l). (doc_id l, new_keyword_hit j l))
           (filter (\<lambda>(j, l). doc_id l \<notin> fst ` set c) (enumerate i ks))"
proof (induction ks arbitrary: i c)
  case Nil
  then show ?case by (simp add: boosted_def)
next
  case (Cons r rest)
  have dr: "distinct (map doc_id rest)" and nr: "doc_id r \<notin> doc_id ` set rest"
    using Cons.prems(2) by auto
  show ?case
  proof (cases "map_of c (doc_id r)")
    case None
    then have nk: "doc_id r \<notin> fst ` set c" by (simp add: map_of_eq_None_iff)
    let ?c = "c @ [(doc_id r, new_keyword_hit i r)]"
    have dc: "distinct (map fst ?c)" using Cons.prems(1) nk by simp
    have step: "keyword_loop i (r # rest) c = keyword_loop (i + 1) rest ?c"
      using None nk by (simp add: update_fresh)
    have old: "map (\<lambda>(key, h). (key, boosted (i + 1) rest key h)) c
             = map (\<lambda>(key, h). (key, boosted i (r # rest) key h)) c"
      using nk by (intro map_cong refl) (auto simp: boosted_def rev_image_eqI)
    have new: "boosted (i + 1) rest (doc_id r) (new_keyword_hit i r) = new_keyword_hit i r"
      using nr by (simp add: boosted_def lexical_of_None)
    have fr: "filter (\<lambda>(j, l). doc_id l \<notin> fst ` set ?c) (enumerate (i + 1) rest)
            = filter (\<lambda>(j, l). doc_id l \<notin> fst ` set c) (enumerate (i + 1) rest)"
    proof (intro filter_cong refl)
      fix e assume "e \<in> set (enumerate (i + 1) rest)"
      then have "snd e \<in> set rest"
        by (rule enumerate_snd_mem)
      with nr have "doc_id (snd e) \<noteq> doc_id r" by (metis imageI)
      then show "(case e of (j, l) \<Rightarrow> doc_id l \<notin> fst ` set ?c)
               = (case e of (j, l) \<Rightarrow> doc_id l \<notin> fst ` set c)"
        by (cases e) auto
    qed
    have ih: "keyword_loop (i + 1) rest ?c
            = map (\<lambda>(key, h). (key, boosted (i + 1) rest key h)) ?c
              @ map (\<lambda>(j, l). (doc_id l, new_keyword_hit j l))
                  (filter (\<lambda>(j, l). doc_id l \<notin> fst ` set ?c) (enumerate (i + 1) rest))"
      by (rule Cons.IH [OF dc dr])
    have lhs: "map (\<lambda>(key, h). (key, boosted (i + 1) rest key h)) ?c
             = map (\<lambda>(key, h). (key, boosted i (r # rest) key h)) c
               @ [(doc_id r, new_keyword_hit i r)]"
      using old new by simp
    have hd: "filter (\<lambda>(j, l). doc_id l \<notin> fst ` set c) (enumerate i (r # rest))
            = (i, r) # filter (\<lambda>(j, l). doc_id l \<notin> fst ` set c) (enumerate (i + 1) rest)"
      using nk by simp
    have "keyword_loop i (r # rest) c
            = map (\<lambda>(key, h). (key, boosted (i + 1) rest key h)) ?c
              @ map (\<lambda>(j, l). (doc_id l, new_keyword_hit j l))
                  (filter (\<lambda>(j, l). doc_id l \<notin> fst ` set ?c) (enumerate (i + 1) rest))"
      by (simp only: step ih)
    also have "\<dots> = (map (\<lambda>(key, h). (key, boosted i (r # rest) key h)) c
               @ [(doc_id r, new_keyword_hit i r)])
              @ map (\<lambda>(j, l). (doc_id l, new_keyword_hit j l))
                  (filter (\<lambda>(j, l). doc_id l \<notin> fst ` set c) (enumerate (i + 1) rest))"
      by (simp only: lhs fr)
    also have "\<dots> = map (\<lambda>(key, h). (key, boosted i (r # rest) key h)) c
              @ map (\<lambda>(j, l). (doc_id l, new_keyword_hit j l))
                  ((i, r) # filter (\<lambda>(j, l). doc_id l \<notin> fst ` set c) (enumerate (i + 1) rest))"
      by simp
    also have "\<dots> = map (\<lambda>(key, h). (key, boosted i (r # rest) key h)) c
              @ map (\<lambda>(j, l). (doc_id l, new_keyword_hit j l))
                  (filter (\<lambda>(j, l). doc_id l \<notin> fst ` set c) (enumerate i (r # rest)))"
      by (simp only: hd)
    finally show ?thesis .
  next
    case (Some h)
    then have ik: "doc_id r \<in> fst ` set c"
      by (metis map_of_eq_None_iff option.distinct(1))
    let ?c = "AList.update (doc_id r) (boost_hit i r h) c"
    have c: "?c = map (\<lambda>(k', x). if k' = doc_id r then (k', boost_hit i r h) else (k', x)) c"
      using Cons.prems(1) ik by (rule update_present)
    have keys: "map fst ?c = map fst c" unfolding c by (auto simp: case_prod_unfold)
    then have keyset: "fst ` set ?c = fst ` set c" by (metis list.set_map)
    have dc: "distinct (map fst ?c)" using Cons.prems(1) keys by simp
    have step: "keyword_loop i (r # rest) c = keyword_loop (i + 1) rest ?c"
      using Some by simp
    have old: "map (\<lambda>(key, h). (key, boosted (i + 1) rest key h)) ?c
             = map (\<lambda>(key, h). (key, boosted i (r # rest) key h)) c"
      unfolding c map_map
    proof (intro map_cong refl)
      fix e assume e: "e \<in> set c"
      obtain k x where kx: "e = (k, x)" by (cases e)
      show "((\<lambda>(key, h). (key, boosted (i + 1) rest key h)) \<circ>
             (\<lambda>(k', x). if k' = doc_id r then (k', boost_hit i r h) else (k', x))) e
            = (\<lambda>(key, h). (key, boosted i (r # rest) key h)) e"
      proof (cases "k = doc_id r")
        case True
        with e kx Some Cons.prems(1) have "x = h" by simp
        with True kx nr show ?thesis by (simp add: boosted_def lexical_of_None)
      next
        case False
        with kx show ?thesis by (auto simp: boosted_def)
      qed
    qed
    have ih: "keyword_loop (i + 1) rest ?c
            = map (\<lambda>(key, h). (key, boosted (i + 1) rest key h)) ?c
              @ map (\<lambda>(j, l). (doc_id l, new_keyword_hit j l))
                  (filter (\<lambda>(j, l). doc_id l \<notin> fst ` set ?c) (enumerate (i + 1) rest))"
      by (rule Cons.IH [OF dc dr])
    have hd: "filter (\<lambda>(j, l). doc_id l \<notin> fst ` set c) (enumerate i (r # rest))
            = filter (\<lambda>(j, l). doc_id l \<notin> fst ` set c) (enumerate (i + 1) rest)"
      using ik by simp
    have "keyword_loop i (r # rest) c
            = map (\<lambda>(key, h). (key, boosted (i + 1) rest key h)) ?c
              @ map (\<lambda>(j, l). (doc_id l, new_keyword_hit j l))
                  (filter (\<lambda>(j, l). doc_id l \<notin> fst ` set ?c) (enumerate (i + 1) rest))"
      by (simp only: step ih)
    also have "\<dots> = map (\<lambda>(key, h). (key, boosted i (r # rest) key h)) c
              @ map (\<lambda>(j, l). (doc_id l, new_keyword_hit j l))
                  (filter (\<lambda>(j, l). doc_id l \<notin> fst ` set c) (enumerate (i + 1) rest))"
      by (simp only: old keyset)
    also have "\<dots> = map (\<lambda>(key, h). (key, boosted i (r # rest) key h)) c
              @ map (\<lambda>(j, l). (doc_id l, new_keyword_hit j l))
                  (filter (\<lambda>(j, l). doc_id l \<notin> fst ` set c) (enumerate i (r # rest)))"
      by (simp only: hd)
    finally show ?thesis .
  qed
qed


lemma map_fst_seeded:
  "map fst (map (\<lambda>(j, v). (doc_id v, seed_hit j v)) (enumerate i vs)) = map doc_id vs"
  by (induction vs arbitrary: i) auto

lemma boosted_seed_hit:
  "boosted 0 ks (doc_id v) (seed_hit j v) = fused_vector_hit ks (j, v)"
  by (cases "lexical_of 0 ks (doc_id v)")
     (auto simp: boosted_def fused_vector_hit_def seed_hit_def boost_hit_def seed_score_def
        Let_def)

lemma new_keyword_hit_fused: "new_keyword_hit j l = fused_lexical_hit (j, l)"
  by (simp add: new_keyword_hit_def fused_lexical_hit_def)

lemma combined_values:
  assumes "distinct (map doc_id vs)" and "distinct (map doc_id ks)"
  shows "map snd (keyword_loop 0 ks (embedding_loop 0 vs [])) = fused_entries vs ks"
proof -
  let ?c = "map (\<lambda>(j, v). (doc_id v, seed_hit j v)) (enumerate 0 vs)"
  have e: "embedding_loop 0 vs [] = ?c"
    using embedding_loop_distinct [OF assms(1), of "[]" 0] by simp
  have keys: "map fst ?c = map doc_id vs" by (rule map_fst_seeded)
  then have keyset: "fst ` set ?c = doc_id ` set vs" by (metis list.set_map)
  have d: "distinct (map fst ?c)" using assms(1) keys by simp
  have v: "map snd (map (\<lambda>(key, h). (key, boosted 0 ks key h)) ?c)
           = map (fused_vector_hit ks) (enumerate 0 vs)"
    by (simp add: case_prod_unfold boosted_seed_hit [unfolded case_prod_unfold]
        fused_vector_hit_def boosted_def seed_hit_def boost_hit_def seed_score_def Let_def
        split: option.splits)
  have l: "map snd (map (\<lambda>(j, l). (doc_id l, new_keyword_hit j l))
              (filter (\<lambda>(j, l). doc_id l \<notin> doc_id ` set vs) (enumerate 0 ks)))
           = map fused_lexical_hit
               (filter (\<lambda>(j, l). doc_id l \<notin> doc_id ` set vs) (enumerate 0 ks))"
    by (simp add: case_prod_unfold new_keyword_hit_def fused_lexical_hit_def)
  show ?thesis
    unfolding e keyword_loop_distinct [OF d assms(2)] keyset map_append v l fused_entries_def ..
qed

lemma ranking_of_sort_by_score_desc: "ranking_of (sort_by_score_desc hs) hs"
proof -
  have "sorted (map (\<lambda>h. - relevance_score h) (sort_by_score_desc hs))"
    by (simp add: sort_by_score_desc_def)
  then have s: "sorted_wrt (\<lambda>a b. relevance_score b \<le> relevance_score a) (sort_by_score_desc hs)"
    by (simp add: sorted_map)
  have st: "filter (\<lambda>h. relevance_score h = x) (sort_by_score_desc hs)
            = filter (\<lambda>h. relevance_score h = x) hs" for x
    using sort_key_stable [of "\<lambda>h. - relevance_score h" "- x" hs]
    by (simp add: sort_by_score_desc_def)
  have "mset (sort_by_score_desc hs) = mset hs"
    by (simp add: sort_by_score_desc_def)
  with s st show ?thesis by (simp add: ranking_of_def)
qed

text \<open>
  C6. The fuser seeds each vector hit with
  \<open>max(0, (2 - distance) * 50) + max(0, (10 - rank) * 5)\<close>, rank being the 0-based
  position in the vector list; a lexical hit whose id is present adds twice its lexical
  score and marks the entry hybrid, any other lexical hit is inserted with three times
  its score. The result is the first \<open>top_k\<close> entries of the ranking of these fused
  entries: the same entries, in descending order of score, entries of equal score in
  their order of insertion. Document ids are unique within each result list.
\<close>

theorem combine_results_fuses:
  assumes "distinct (map doc_id vector)" and "distinct (map doc_id lexical)" and "0 \<le> top_k"
  shows "combine_results vector lexical top_k = fuse vector lexical (nat top_k)
     \<and> (\<exists>ranked. ranking_of ranked (fused_entries vector lexical)
            \<and> combine_results vector lexical top_k = take (nat top_k) ranked)
     \<and> length (combine_results vector lexical top_k)
         = min (nat top_k) (length (fused_entries vector lexical))"
proof -
  have eq: "combine_results vector lexical top_k
            = take (nat top_k) (sort_by_score_desc (fused_entries vector lexical))"
    using assms(3)
    by (simp add: combine_results_def py_take_def combined_values [OF assms(1,2)])
  have "combine_results vector lexical top_k = fuse vector lexical (nat top_k)"
    unfolding eq by (simp add: fuse_def sort_by_score_desc_def)
  moreover have "\<exists>ranked. ranking_of ranked (fused_entries vector lexical)
            \<and> combine_results vector lexical top_k = take (nat top_k) ranked"
    using eq ranking_of_sort_by_score_desc by blast
  moreover have "length (combine_results vector lexical top_k)
         = min (nat top_k) (length (fused_entries vector lexical))"
    unfolding eq by (simp add: sort_by_score_desc_def min.commute)
  ultimately show ?thesis by simp
qed

theorem combine_results_fuses_witness:
  "distinct (map doc_id [mk_hit ''a'' 3 (1 / 4) Embedding, mk_hit ''b'' (2 / 5) (9 / 10) Embedding])
   \<and> distinct (map doc_id [mk_hit ''c'' (- 9) 100 Keyword, mk_hit ''b'' 0 10 Keyword])
   \<and> fused_entries
         [mk_hit ''a'' 3 (1 / 4) Embedding, mk_hit ''b'' (2 / 5) (9 / 10) Embedding]
         [mk_hit ''c'' (- 9) 100 Keyword, mk_hit ''b'' 0 10 Keyword]
       = [(mk_hit ''a'' 3 50 Embedding)\<lparr>embedding_rank := Some 1\<rparr>,
          (mk_hit ''b'' (2 / 5) 145 Hybrid)\<lparr>embedding_rank := Some 2, keyword_rank := Some 2\<rparr>,
          (mk_hit ''c'' (- 9) 300 Keyword)\<lparr>keyword_rank := Some 1\<rparr>]
   \<and> combine_results
         [mk_hit ''a'' 3 (1 / 4) Embedding, mk_hit ''b'' (2 / 5) (9 / 10) Embedding]
         [mk_hit ''c'' (- 9) 100 Keyword, mk_hit ''b'' 0 10 Keyword] 2
       = [(mk_hit ''c'' (- 9) 300 Keyword)\<lparr>keyword_rank := Some 1\<rparr>,
          (mk_hit ''b'' (2 / 5) 145 Hybrid)\<lparr>embedding_rank := Some 2, keyword_rank := Some 2\<rparr>]"
  using combine_results_fuses
    [of "[mk_hit ''a'' 3 (1 / 4) Embedding, mk_hit ''b'' (2 / 5) (9 / 10) Embedding]"
        "[mk_hit ''c'' (- 9) 100 Keyword, mk_hit ''b'' 0 10 Keyword]" 2]
  by (simp add: mk_hit_def u_def fuse_def fused_entries_def fused_vector_hit_def
      fused_lexical_hit_def seed_score_def enumerate_eq_zip upt_rec [of 0] upt_rec [of 1])

section \<open>Properties of the lexical scorer\<close>

lemma fuzzy_loop_eq:
  "fuzzy_loop ratio keyword ws bonus score
   = score + (if \<exists>w \<in> set ws. ratio keyword w > 85 then bonus else 0)"
  by (induction ws) auto

lemma keyword_step_eq:
  "keyword_step ratio title_l body score keyword
   = score + keyword_points ratio title_l body keyword"
  by (simp add: keyword_step_def keyword_points_def fuzzy_loop_eq fuzzy_match_def Let_def)

lemma foldl_keyword_step:
  "foldl (keyword_step ratio title_l body) acc kws
   = acc + sum_list (map (keyword_points ratio title_l body) kws)"
  by (induction kws arbitrary: acc) (simp_all add: keyword_step_eq)

text \<open>
  C7, as the code has it. The score of a document is the sum, over the keywords, of: 30
  if the keyword occurs in the lower-cased title, 3 per non-overlapping occurrence in the
  lower-cased body, and, only for a keyword of more than 3 characters, 8 if some title
  word and 4 (once) if some body word has fuzzy similarity above 85 to it.
\<close>

theorem calculate_keyword_score_sum:
  "calculate_keyword_score lower ratio content_s keywords md
   = sum_list (map (keyword_points ratio
                      (lower (case title md of None \<Rightarrow> [] | Some t \<Rightarrow> t)) (lower content_s))
                 keywords)"
  by (simp add: calculate_keyword_score_def foldl_keyword_step)

text \<open>
  C7 as stated gives the fuzzy bonuses to every keyword. For the keyword "abc" and the
  title "Abc" the code scores 30, the stated sum is 38.
\<close>

theorem calculate_keyword_score_short_keyword_counterexample:
  "calculate_keyword_score ascii_lower fuzz_ratio [] [u ''abc'']
     (empty_metadata\<lparr>title := Some (u ''Abc'')\<rparr>) = 30
   \<and> sum_list (map (claimed_points fuzz_ratio (ascii_lower (u ''Abc'')) (ascii_lower []))
        [u ''abc'']) = 38"
  by (simp add: calculate_keyword_score_def keyword_step_def claimed_points_def
      fuzzy_match_def py_split_def is_space_def py_count_def fuzz_ratio_def ascii_lower_def
      u_def empty_metadata_def)

theorem calculate_keyword_score_sum_witness:
  "calculate_keyword_score ascii_lower fuzz_ratio (u ''abcd Abcd abce'') [u ''abcd'', u ''abc'']
     (empty_metadata\<lparr>title := Some (u ''ABCD x'')\<rparr>) = 87"
  using calculate_keyword_score_sum [of ascii_lower fuzz_ratio "u ''abcd Abcd abce''"
          "[u ''abcd'', u ''abc'']" "empty_metadata\<lparr>title := Some (u ''ABCD x'')\<rparr>"]
  by (simp add: keyword_points_def fuzzy_match_def py_split_def is_space_def py_count_def
      fuzz_ratio_def ascii_lower_def u_def empty_metadata_def)

section \<open>Properties of the result validator\<close>

declare llm_validation_loop.simps [simp del]
declare search_loop.simps [simp del]

lemma llm_validation_loop_events:
  "length (snd (llm_validation_loop llm s a m r)) \<le> m + 1 - r
   \<and> filter is_llm (snd (llm_validation_loop llm s a m r)) = snd (llm_validation_loop llm s a m r)"
proof (induction llm s a m r rule: llm_validation_loop.induct)
  case (1 llm s a m r)
  show ?case
  proof (cases "r > m")
    case True
    then show ?thesis by (subst (1 2 3) llm_validation_loop.simps) simp
  next
    case False
    show ?thesis
    proof (cases "r < m")
      case True
      with False 1 show ?thesis
        by (subst (1 2 3) llm_validation_loop.simps)
           (auto split: llm_reply.splits prod.splits)
    next
      case last: False
      with False show ?thesis
        by (subst (1 2 3) llm_validation_loop.simps) (auto split: llm_reply.splits)
    qed
  qed
qed

lemma llm_validation_events:
  "length (snd (llm_validation llm s a)) \<le> 3
   \<and> filter is_llm (snd (llm_validation llm s a)) = snd (llm_validation llm s a)"
  using llm_validation_loop_events [of llm s a 3 1] by (simp add: llm_validation_def)

lemma all_unparsed_loop:
  "(\<And>k. r \<le> k \<Longrightarrow> k \<le> m \<Longrightarrow> llm a k = Unparsed) \<Longrightarrow> r \<le> m \<Longrightarrow>
   llm_validation_loop llm s a m r = (parse_fallback s, map (LlmEv a) [r..<Suc m])"
proof (induction llm s a m r rule: llm_validation_loop.induct)
  case (1 llm s a m r)
  have u: "llm a r = Unparsed" using "1.prems" by simp
  have nm: "\<not> r > m" using "1.prems"(2) by simp
  show ?case
  proof (cases "r < m")
    case True
    have "llm_validation_loop llm s a m (r + 1)
          = (parse_fallback s, map (LlmEv a) [r + 1..<Suc m])"
      using "1.IH"(1) [OF nm u True] "1.prems" True by simp
    moreover have "[r..<Suc m] = r # [r + 1..<Suc m]"
      using True by (simp add: upt_rec [of r])
    ultimately show ?thesis
      using u True nm by (subst llm_validation_loop.simps) simp
  next
    case False
    with "1.prems"(2) have "r = m" by simp
    then show ?thesis
      using u by (subst llm_validation_loop.simps) simp
  qed
qed

lemma llm_validation_all_unparsed:
  assumes "llm attempt 1 = Unparsed" and "llm attempt 2 = Unparsed"
      and "llm attempt 3 = Unparsed"
  shows "llm_validation llm s attempt
         = (parse_fallback s, [LlmEv attempt 1, LlmEv attempt 2, LlmEv attempt 3])"
proof -
  have "llm attempt k = Unparsed" if "1 \<le> k" "k \<le> 3" for k
  proof -
    from that have "k = 1 \<or> k = 2 \<or> k = 3" by arith
    with assms show ?thesis by auto
  qed
  then have "llm_validation_loop llm s attempt 3 1
             = (parse_fallback s, map (LlmEv attempt) [1..<Suc 3])"
    by (intro all_unparsed_loop) simp_all
  moreover have "[1..<Suc 3] = [1, 2, (3::nat)]"
    by code_simp
  ultimately show ?thesis by (simp add: llm_validation_def)
qed

lemma upt_one_four: "[Suc 0..<4] = [Suc 0, 2, 3]"
  by code_simp

lemma parse_fallback_indices:
  "selected_indices (parse_fallback s) = map int [1..<min 3 (length s) + 1]"
proof (cases "length s \<ge> 3")
  case True
  then have "min 3 (length s) = 3" by simp
  then show ?thesis using True
    by (simp add: parse_fallback_def upt_one_four)
next
  case False
  then show ?thesis by (simp add: parse_fallback_def min_def)
qed

text \<open>
  C8. When the reasoning service's output is malformed on each of the three requests of
  a validation, the validator returns the permissive default: relevant exactly when
  there are hits, the selected indices are the first \<open>min(3, number of hits)\<close>
  positions, confidence 0.3, no reformulation.
\<close>

theorem llm_validation_malformed_fallback:
  assumes "llm attempt 1 = Unparsed" and "llm attempt 2 = Unparsed"
      and "llm attempt 3 = Unparsed"
  shows "(is_relevant (fst (llm_validation llm s attempt)) \<longleftrightarrow> s \<noteq> [])
     \<and> selected_indices (fst (llm_validation llm s attempt))
         = map int [1..<min 3 (length s) + 1]
     \<and> vconfidence (fst (llm_validation llm s attempt)) = 3 / 10
     \<and> \<not> needs_reformulation (fst (llm_validation llm s attempt))
     \<and> reformulated_query (fst (llm_validation llm s attempt)) = None
     \<and> reformulation_strategy (fst (llm_validation llm s attempt)) = None
     \<and> snd (llm_validation llm s attempt)
         = [LlmEv attempt 1, LlmEv attempt 2, LlmEv attempt 3]"
proof -
  have eq: "llm_validation llm s attempt
            = (parse_fallback s, [LlmEv attempt 1, LlmEv attempt 2, LlmEv attempt 3])"
    using assms by (rule llm_validation_all_unparsed)
  show ?thesis
    unfolding eq fst_conv snd_conv
    by (simp add: parse_fallback_indices) (simp add: parse_fallback_def)
qed

theorem llm_validation_malformed_fallback_witness:
  "always_unparsed 1 1 = Unparsed \<and> always_unparsed 1 2 = Unparsed
   \<and> always_unparsed 1 3 = Unparsed
   \<and> fst (llm_validation always_unparsed
          (summarize_results [hit_with_dept, hit_without_dept]) 1)
       = \<lparr>is_relevant = True, selected_indices = [1, 2], vconfidence = 3 / 10,
          vreasoning = fallback_reasoning, needs_reformulation = False,
          reformulated_query = None, reformulation_strategy = None\<rparr>
   \<and> fst (llm_validation always_unparsed (summarize_results []) 1)
       = \<lparr>is_relevant = False, selected_indices = [], vconfidence = 3 / 10,
          vreasoning = fallback_reasoning, needs_reformulation = False,
          reformulated_query = None, reformulation_strategy = None\<rparr>"
  using llm_validation_malformed_fallback
          [of always_unparsed 1 "summarize_results [hit_with_dept, hit_without_dept]"]
        llm_validation_malformed_fallback [of always_unparsed 1 "summarize_results []"]
        llm_validation_all_unparsed
          [of always_unparsed 1 "summarize_results [hit_with_dept, hit_without_dept]"]
        llm_validation_all_unparsed [of always_unparsed 1 "summarize_results []"]
  by (simp add: always_unparsed_def summarize_results_def parse_fallback_def)

section \<open>Properties of the retrieval loop\<close>

lemma only_llm_events:
  assumes "filter is_llm vs = vs"
  shows "filter is_search vs = []" and "filter is_validated vs = []"
proof -
  from assms have all: "\<forall>e \<in> set vs. is_llm e" by (metis filter_id_conv)
  have "\<not> is_search e \<and> \<not> is_validated e" if "is_llm e" for e
    using that by (cases e) auto
  with all show "filter is_search vs = []" and "filter is_validated vs = []"
    by (auto simp: filter_empty_conv)
qed

lemma bounded_run_empty: "bounded_run n ([], [])"
  by (simp add: bounded_run_def)

lemma bounded_run_zero_hits_last: "bounded_run (Suc n) ([], [SearchEv a q])"
  by (simp add: bounded_run_def)

lemma bounded_run_zero_hits:
  "bounded_run n (res, evs) \<Longrightarrow> bounded_run (Suc n) (res, SearchEv a q # evs)"
  by (auto simp: bounded_run_def)

lemma bounded_run_validated_stop:
  assumes "length vevs \<le> 3" and "filter is_llm vevs = vevs"
      and "res = [] \<or> (res = sel \<and> is_relevant d)"
  shows "bounded_run (Suc n) (res, SearchEv a q # vevs @ [ValidatedEv a d sel])"
  using assms only_llm_events [OF assms(2)] by (auto simp: bounded_run_def)

lemma bounded_run_validated_again:
  assumes "length vevs \<le> 3" and "filter is_llm vevs = vevs"
      and "bounded_run n (res, evs)"
  shows "bounded_run (Suc n) (res, (SearchEv a q # vevs @ [ValidatedEv a d sel]) @ evs)"
  using assms only_llm_events [OF assms(2)] by (auto simp: bounded_run_def)

lemma validate_and_select_facts:
  assumes "validate_and_select llm raw a = (d, sel, vevs)"
  shows "length vevs \<le> 3" and "filter is_llm vevs = vevs" and "sel = [] \<or> is_relevant d"
proof -
  obtain d' evs' where l: "llm_validation llm (summarize_results raw) a = (d', evs')"
    by (cases "llm_validation llm (summarize_results raw) a")
  with assms have "vevs = evs'" and "d = d'"
    by (auto simp: validate_and_select_def Let_def split: if_splits)
  with l llm_validation_events [of llm "summarize_results raw" a]
  show "length vevs \<le> 3" and "filter is_llm vevs = vevs" by auto
  from assms l show "sel = [] \<or> is_relevant d"
    by (auto simp: validate_and_select_def Let_def split: if_splits)
qed

lemma search_loop_bounded:
  "bounded_run (MAX_ATTEMPTS + 1 - a) (search_loop db llm a q)"
proof (induction db llm a q rule: search_loop.induct)
  case (1 db llm attempt q)
  show ?case
  proof (cases "attempt > MAX_ATTEMPTS")
    case True
    then show ?thesis by (subst search_loop.simps) (simp add: bounded_run_empty)
  next
    case in_range: False
    then have n: "MAX_ATTEMPTS + 1 - attempt = Suc (MAX_ATTEMPTS - attempt)" by simp
    show ?thesis
    proof (cases "db attempt q = []")
      case zero: True
      show ?thesis
      proof (cases "attempt = MAX_ATTEMPTS")
        case True
        with zero in_range show ?thesis
          by (subst search_loop.simps) (simp add: bounded_run_zero_hits_last)
      next
        case more: False
        have ih: "bounded_run (MAX_ATTEMPTS + 1 - (attempt + 1))
                    (search_loop db llm (attempt + 1) (simplify_query q))"
          using "1.IH"(1) [OF in_range refl zero more] .
        obtain res evs where r: "search_loop db llm (attempt + 1) (simplify_query q) = (res, evs)"
          by (cases "search_loop db llm (attempt + 1) (simplify_query q)")
        have "bounded_run (Suc (MAX_ATTEMPTS - attempt)) (res, SearchEv attempt q # evs)"
          using ih r in_range more by (intro bounded_run_zero_hits) simp
        with zero in_range more r n show ?thesis
          by (subst search_loop.simps) (auto simp: Let_def)
      qed
    next
      case hits: False
      obtain d sel vevs where v: "validate_and_select llm (db attempt q) attempt = (d, sel, vevs)"
        by (cases "validate_and_select llm (db attempt q) attempt") auto
      note f = validate_and_select_facts [OF v]
      show ?thesis
      proof (cases "is_relevant d \<and> sel \<noteq> []")
        case True
        then have "bounded_run (Suc (MAX_ATTEMPTS - attempt))
                     (sel, SearchEv attempt q # vevs @ [ValidatedEv attempt d sel])"
          using f by (intro bounded_run_validated_stop) auto
        with True hits in_range v n show ?thesis
          by (subst search_loop.simps) (auto simp: Let_def)
      next
        case no_success: False
        show ?thesis
        proof (cases "needs_reformulation d \<and> truthy_str (reformulated_query d)")
          case reform: True
          show ?thesis
          proof (cases "attempt = MAX_ATTEMPTS")
            case True
            have "bounded_run (Suc (MAX_ATTEMPTS - attempt))
                     ([], SearchEv attempt q # vevs @ [ValidatedEv attempt d sel])"
              using f by (intro bounded_run_validated_stop) auto
            with True no_success reform hits in_range v n show ?thesis
              by (subst search_loop.simps) (auto simp: Let_def)
          next
            case more: False
            have ih: "bounded_run (MAX_ATTEMPTS + 1 - (attempt + 1))
                    (search_loop db llm (attempt + 1) (the (reformulated_query d)))"
              using "1.IH"(2) [OF in_range refl hits refl v [symmetric] refl refl no_success reform more] .
            obtain res evs
              where r: "search_loop db llm (attempt + 1) (the (reformulated_query d)) = (res, evs)"
              by (cases "search_loop db llm (attempt + 1) (the (reformulated_query d))")
            have "bounded_run (Suc (MAX_ATTEMPTS - attempt))
                    (res, (SearchEv attempt q # vevs @ [ValidatedEv attempt d sel]) @ evs)"
              using ih r in_range more f by (intro bounded_run_validated_again) simp_all
            with more no_success reform hits in_range v n r show ?thesis
              by (subst search_loop.simps) (auto simp: Let_def)
          qed
        next
          case stop: False
          from no_success f(3) have "sel = []" by auto
          then have "bounded_run (Suc (MAX_ATTEMPTS - attempt))
                     (sel, SearchEv attempt q # vevs @ [ValidatedEv attempt d sel])"
            using f by (intro bounded_run_validated_stop) auto
          with stop no_success hits in_range v n show ?thesis
            by (subst search_loop.simps) (auto simp: Let_def)
        qed
      qed
    qed
  qed
qed

lemmas loop_eval = search_loop.simps validate_and_select_def llm_validation_def
  llm_validation_loop.simps summarize_results_def decision_of_json_def MAX_ATTEMPTS_def
  validator_max_retries_def truthy_str_def select_results_def simplify_query_def
  py_split_def is_space_def u_def

lemmas search_eval = search_with_route_def build_route_filters_def enhance_query_def
  intent_to_category_def route_aware_search_def route_aware_search_body_def format_hit_def
  sub00_def py_index_def truthy_list_def rerank_with_route_bonuses_def sort_by_score_desc_def
  add_route_bonus_def route_bonus_of_def py_take_def

text \<open>
  C4. For every question the orchestrator calls the validator at most 3 times, whatever
  the searches return and whatever the reasoning service answers: there is at most one
  validation per search and there are at most 3 searches.
\<close>

theorem at_most_three_validation_passes:
  "length (filter is_validated (snd (search_with_validation backends lower llm message rd))) \<le> 3
   \<and> length (filter is_validated (snd (search_with_validation backends lower llm message rd)))
       \<le> length (filter is_search (snd (search_with_validation backends lower llm message rd)))
   \<and> length (filter is_search (snd (search_with_validation backends lower llm message rd))) \<le> 3"
  using search_loop_bounded
    [of 1 "\<lambda>attempt query. search_with_route (backends attempt) lower query rd 15" llm
        "if enhancement_keywords rd \<noteq> [] then py_join (u '' '') (enhancement_keywords rd)
         else message"]
  by (simp add: search_with_validation_def bounded_run_def MAX_ATTEMPTS_def)

theorem at_most_three_validation_passes_witness:
  "map is_validated
     (snd (search_with_validation store_down_first ascii_lower always_reformulate (u ''a b'')
        route_fknt))
   = [False, False, False, True, False, False, True]
   \<and> length (filter is_validated
        (snd (search_with_validation store_down_first ascii_lower always_reformulate (u ''a b'')
           route_fknt))) = 2"
  using at_most_three_validation_passes
    [of store_down_first ascii_lower always_reformulate "u ''a b''" route_fknt]
  by (simp add: search_with_validation_def loop_eval search_eval store_down_first_def
      failing_store_def two_docs_store_def two_docs_def always_reformulate_def
      reformulate_json_def route_fknt_def fknt_def ascii_lower_def meta_fknt_def
      meta_fknt_dept_def empty_metadata_def)

section \<open>Properties of the query router\<close>

declare llm_routing_loop.simps [simp del]

text \<open>
  C1, as the code has it. Every decision of the heuristic routing path carries the
  confidence 0.5, whatever entity, history context or group signal was found: the values
  0.95, 0.98, 0.75, 0.70 and 0.60 are assigned to a local variable and the decision is
  built with the literal 0.5.
\<close>

theorem heuristic_confidence_always_half:
  "confidence (heuristic_routing env query history group_name) = 1 / 2"
  by (simp add: heuristic_routing_def Let_def split: prod.splits)

theorem heuristic_confidence_always_half_witness:
  "confidence (heuristic_routing env_fknt q_about_fknt None None) = 1 / 2
   \<and> search_scope (heuristic_routing env_fknt q_about_fknt None None) = fknt
   \<and> search_level (heuristic_routing env_fknt q_about_fknt None None) = u ''faculty''"
  using heuristic_confidence_always_half [of env_fknt q_about_fknt None None]
  by (simp add: heuristic_routing_def heuristic_scope_def history_context_def env_fknt_def
      q_about_fknt_def fknt_entity_def fknt_def Let_def)

text \<open>
  C1 as stated promises a confidence above 0.5 (0.95) when a faculty is matched in the
  question. For "Rozkazhy pro FKNT" the faculty is matched, the local variable holds
  0.95, and the returned confidence is 0.5.
\<close>

theorem heuristic_confidence_faculty_counterexample:
  "extract_entities_from_text env_fknt q_about_fknt = [fknt_entity]
   \<and> e_type fknt_entity = u ''faculty''
   \<and> snd (snd (snd (heuristic_scope env_fknt [fknt_entity] None None None))) = 95 / 100
   \<and> search_scope (heuristic_routing env_fknt q_about_fknt None None) = fknt
   \<and> confidence (heuristic_routing env_fknt q_about_fknt None None) = 1 / 2
   \<and> \<not> confidence (heuristic_routing env_fknt q_about_fknt None None) > 1 / 2"
  by (simp add: heuristic_routing_def heuristic_scope_def history_context_def env_fknt_def
      q_about_fknt_def fknt_entity_def fknt_def Let_def)

section \<open>Zero-hit searches in the retrieval loop\<close>

lemma search_loop_first_event:
  "attempt \<le> MAX_ATTEMPTS \<Longrightarrow> \<exists>rest. snd (search_loop db llm attempt q) = SearchEv attempt q # rest"
  by (subst search_loop.simps) (auto simp: Let_def split: prod.splits)

lemma search_loop_zero_hits_last:
  "db attempt q = [] \<Longrightarrow> attempt = MAX_ATTEMPTS \<Longrightarrow>
   search_loop db llm attempt q = ([], [SearchEv attempt q])"
  by (subst search_loop.simps) simp

lemma search_loop_zero_hits_next:
  "db attempt q = [] \<Longrightarrow> attempt < MAX_ATTEMPTS \<Longrightarrow>
   search_loop db llm attempt q
   = (fst (search_loop db llm (attempt + 1) (simplify_query q)),
      SearchEv attempt q # snd (search_loop db llm (attempt + 1) (simplify_query q)))"
  by (subst search_loop.simps) (simp add: Let_def split: prod.splits)

text \<open>
  C2, as the code has it. When a search returns zero raw hits at an attempt before the
  third, no validation is made for that attempt; the query is replaced by its first
  whitespace-separated token when it has more than one token (and kept otherwise) and
  the search is retried as the next attempt, which uses up one of the 3 attempts. When
  the zero-hit search is the third attempt, the loop stops with no evidence.
\<close>

theorem zero_hits_retry_is_next_attempt:
  assumes "db attempt q = []" and "attempt \<le> MAX_ATTEMPTS"
  shows "MAX_ATTEMPTS = 3
     \<and> simplify_query q = (if length (py_split q) > 1 then hd (py_split q) else q)
     \<and> ((attempt = MAX_ATTEMPTS \<and> search_loop db llm attempt q = ([], [SearchEv attempt q]))
        \<or> (attempt < MAX_ATTEMPTS
           \<and> fst (search_loop db llm attempt q)
               = fst (search_loop db llm (attempt + 1) (simplify_query q))
           \<and> (\<exists>rest. snd (search_loop db llm attempt q)
                        = SearchEv attempt q # SearchEv (attempt + 1) (simplify_query q) # rest
                    \<and> snd (search_loop db llm (attempt + 1) (simplify_query q))
                        = SearchEv (attempt + 1) (simplify_query q) # rest)))"
proof (cases "attempt = MAX_ATTEMPTS")
  case True
  with assms(1) show ?thesis
    by (simp add: search_loop_zero_hits_last MAX_ATTEMPTS_def simplify_query_def)
next
  case False
  with assms(2) have lt: "attempt < MAX_ATTEMPTS" by simp
  then have "attempt + 1 \<le> MAX_ATTEMPTS" by simp
  then obtain rest
    where r: "snd (search_loop db llm (attempt + 1) (simplify_query q))
              = SearchEv (attempt + 1) (simplify_query q) # rest"
    using search_loop_first_event by blast
  have "search_loop db llm attempt q
        = (fst (search_loop db llm (attempt + 1) (simplify_query q)),
           SearchEv attempt q # snd (search_loop db llm (attempt + 1) (simplify_query q)))"
    using assms(1) lt by (rule search_loop_zero_hits_next)
  with r lt show ?thesis
    by (simp add: MAX_ATTEMPTS_def simplify_query_def)
qed

theorem zero_hits_retry_is_next_attempt_witness:
  "empty_first 1 q4 = [] \<and> (1::nat) \<le> MAX_ATTEMPTS
   \<and> simplify_query q4 = kafedra
   \<and> take 3 (snd (search_loop empty_first always_reformulate 1 q4))
       = [SearchEv 1 q4, SearchEv 2 kafedra, LlmEv 2 1]"
  using zero_hits_retry_is_next_attempt [of empty_first 1 q4 always_reformulate]
  by (simp add: loop_eval empty_first_def always_reformulate_def reformulate_json_def
      q4_def kafedra_def)

text \<open>
  C2 as stated keeps the retry inside the same attempt and leaves the budget untouched.
  Here the first search finds nothing and every later search finds a document that the
  validator rejects with a reformulation: the retry is made as attempt 2, and the loop
  gives up after two validations, its last search having returned a hit.
\<close>

theorem zero_hits_consume_attempt_counterexample:
  "empty_first 1 (u ''a b'') = [] \<and> empty_first 3 (u ''x'') = [hit_with_dept]
   \<and> search_loop empty_first always_reformulate 1 (u ''a b'')
       = ([], [SearchEv 1 (u ''a b''), SearchEv 2 (u ''a''), LlmEv 2 1,
               ValidatedEv 2 (decision_of_json reformulate_json) [],
               SearchEv 3 (u ''x''), LlmEv 3 1,
               ValidatedEv 3 (decision_of_json reformulate_json) []])
   \<and> length (filter is_validated
        (snd (search_loop empty_first always_reformulate 1 (u ''a b'')))) = 2"
  by (simp add: loop_eval empty_first_def always_reformulate_def reformulate_json_def)

section \<open>The search step of the retrieval loop\<close>

lemma py_take_subset: "set (py_take k xs) \<subseteq> set xs"
  by (auto simp: py_take_def dest: in_set_takeD)

lemma add_route_bonus_stype: "stype (add_route_bonus rd r) = stype r"
  by (simp add: add_route_bonus_def)

lemma route_aware_search_routed:
  "h \<in> set (route_aware_search b q f k) \<Longrightarrow> stype h = Routed"
  using route_aware_search_hit format_hit_stype by blast

lemma search_with_route_routed:
  assumes "h \<in> set (search_with_route b lower query rd top_k)"
  shows "stype h = Routed"
proof -
  from assms have "h \<in> set (rerank_with_route_bonuses
      (route_aware_search b (enhance_query lower query rd) (build_route_filters rd) (top_k * 5)) rd)"
    using py_take_subset by (fastforce simp: search_with_route_def Let_def)
  then obtain r
    where "r \<in> set (route_aware_search b (enhance_query lower query rd)
                      (build_route_filters rd) (top_k * 5))"
      and "h = add_route_bonus rd r"
    by (auto simp: rerank_set)
  then show ?thesis by (simp add: add_route_bonus_stype route_aware_search_routed)
qed

lemma select_results_subset: "set (select_results raw indices) \<subseteq> set raw"
  by (auto simp: select_results_def)

lemma validate_and_select_subset:
  assumes "validate_and_select llm raw a = (d, sel, vevs)"
  shows "set sel \<subseteq> set raw"
proof -
  obtain d' evs' where l: "llm_validation llm (summarize_results raw) a = (d', evs')"
    by (cases "llm_validation llm (summarize_results raw) a")
  with assms have "sel = [] \<or> sel = select_results raw (selected_indices d')"
    by (auto simp: validate_and_select_def Let_def split: if_splits)
  then show ?thesis using select_results_subset by auto
qed

lemma search_loop_results_from_db:
  "h \<in> set (fst (search_loop db llm a q)) \<Longrightarrow> \<exists>a' q'. h \<in> set (db a' q')"
proof (induction db llm a q rule: search_loop.induct)
  case (1 db llm attempt q)
  show ?case
  proof (cases "attempt > MAX_ATTEMPTS")
    case True
    with "1.prems" show ?thesis by (subst (asm) search_loop.simps) simp
  next
    case in_range: False
    show ?thesis
    proof (cases "db attempt q = []")
      case zero: True
      show ?thesis
      proof (cases "attempt = MAX_ATTEMPTS")
        case True
        with zero in_range "1.prems" show ?thesis
          by (subst (asm) search_loop.simps) simp
      next
        case more: False
        from zero in_range more "1.prems"
        have "h \<in> set (fst (search_loop db llm (attempt + 1) (simplify_query q)))"
          by (subst (asm) search_loop.simps) (simp add: Let_def split: prod.splits)
        then show ?thesis
          by (rule "1.IH"(1) [OF in_range refl zero more])
      qed
    next
      case hits: False
      obtain d sel vevs where v: "validate_and_select llm (db attempt q) attempt = (d, sel, vevs)"
        by (cases "validate_and_select llm (db attempt q) attempt") auto
      have sub: "set sel \<subseteq> set (db attempt q)"
        using v by (rule validate_and_select_subset)
      show ?thesis
      proof (cases "is_relevant d \<and> sel \<noteq> []")
        case True
        with hits in_range v "1.prems" have "h \<in> set sel"
          by (subst (asm) search_loop.simps) (auto simp: Let_def)
        with sub show ?thesis by blast
      next
        case no_success: False
        show ?thesis
        proof (cases "needs_reformulation d \<and> truthy_str (reformulated_query d)")
          case reform: True
          show ?thesis
          proof (cases "attempt = MAX_ATTEMPTS")
            case True
            with no_success reform hits in_range v "1.prems" show ?thesis
              by (subst (asm) search_loop.simps) (auto simp: Let_def)
          next
            case more: False
            from more no_success reform hits in_range v "1.prems"
            have "h \<in> set (fst (search_loop db llm (attempt + 1) (the (reformulated_query d))))"
              by (subst (asm) search_loop.simps) (auto simp: Let_def split: prod.splits)
            then show ?thesis
              by (rule "1.IH"(2) [OF in_range refl hits refl v [symmetric] refl refl
                    no_success reform more])
          qed
        next
          case stop: False
          with no_success hits in_range v "1.prems" have "h \<in> set sel"
            by (subst (asm) search_loop.simps) (auto simp: Let_def)
          with sub show ?thesis by blast
        qed
      qed
    qed
  qed
qed

text \<open>
  C3, as the code has it. Every search step of the retrieval loop calls the vector
  search alone, with the current query (extended by the route's enhancement keywords
  that are not yet among its words) and the route filter, re-ranks its hits with the
  route bonuses and cuts them to \<open>top_k\<close>. The lexical scorer and the result fuser
  take no part: every hit of a search step, and every hit the loop returns, has the
  origin "routed".
\<close>

theorem search_step_is_vector_only:
  "search_with_route b lower query rd top_k
     = py_take top_k (rerank_with_route_bonuses
         (route_aware_search b (enhance_query lower query rd) (build_route_filters rd)
            (top_k * 5)) rd)
   \<and> (\<forall>h \<in> set (search_with_route b lower query rd top_k). stype h = Routed)
   \<and> (\<forall>h \<in> set (fst (search_with_validation backends lower llm message rd)).
         stype h = Routed)"
proof (intro conjI ballI)
  show "search_with_route b lower query rd top_k
     = py_take top_k (rerank_with_route_bonuses
         (route_aware_search b (enhance_query lower query rd) (build_route_filters rd)
            (top_k * 5)) rd)"
    by (simp add: search_with_route_def Let_def)
next
  fix h assume "h \<in> set (search_with_route b lower query rd top_k)"
  then show "stype h = Routed" by (rule search_with_route_routed)
next
  fix h assume "h \<in> set (fst (search_with_validation backends lower llm message rd))"
  then obtain a' q' where "h \<in> set (search_with_route (backends a') lower q' rd 15)"
    unfolding search_with_validation_def Let_def
    by (drule_tac search_loop_results_from_db) blast
  then show "stype h = Routed" by (rule search_with_route_routed)
qed

theorem search_step_is_vector_only_witness:
  "map stype (search_with_route two_docs_store ascii_lower (u ''x'') route_fknt 15)
     = [Routed, Routed]
   \<and> map stype
       (fst (search_with_validation (\<lambda>a. two_docs_store) ascii_lower always_unparsed
               (u ''x'') route_fknt))
     = [Routed, Routed]"
  using search_step_is_vector_only
    [of two_docs_store ascii_lower "u ''x''" route_fknt 15 "\<lambda>a. two_docs_store"
        always_unparsed "u ''x''"]
  by (simp add: search_with_validation_def loop_eval search_eval two_docs_store_def
      two_docs_def always_unparsed_def parse_fallback_def upt_one_four
      route_fknt_def fknt_def ascii_lower_def meta_fknt_def meta_fknt_dept_def
      empty_metadata_def Let_def)

text \<open>
  C3 as stated passes the vector hits through the lexical scorer and the result fuser.
  For a store with two documents at distances 0.4 and 6 the search step returns the
  scores 1 and 0.2 with origin "routed"; the fuser, given the same vector hits, would
  return 130 and 45 with origin "embedding".
\<close>

theorem search_step_not_fused_counterexample:
  "map relevance_score (search_with_route two_docs_store ascii_lower (u ''x'') route_fknt 15)
     = [1, 1 / 5]
   \<and> map stype (search_with_route two_docs_store ascii_lower (u ''x'') route_fknt 15)
     = [Routed, Routed]
   \<and> map relevance_score
       (combine_results
          (route_aware_search two_docs_store (u ''x'') (build_route_filters route_fknt) 75)
          [] 15)
     = [130, 45]
   \<and> map stype
       (combine_results
          (route_aware_search two_docs_store (u ''x'') (build_route_filters route_fknt) 75)
          [] 15)
     = [Embedding, Embedding]"
  by (simp add: search_eval two_docs_store_def two_docs_def route_fknt_def fknt_def
      ascii_lower_def meta_fknt_def meta_fknt_dept_def empty_metadata_def u_def
      combine_results_def seed_hit_def Let_def)

section \<open>Termination and bounds of the retrieval\<close>





end
